theory Spec2Isabelle
  imports Main "HOL-Library.Char_ord" "HOL-Library.List_Lexorder" "HOL-Library.Multiset"
begin

section \<open>Python values, dictionaries, errors and diagnostics\<close>

text \<open>
  The scalar values that the fields of a parsed exchange-info document hold and that the
  canonical records carry: \<open>None\<close>, integers and strings. A Python \<open>str\<close> is a
  \<open>string\<close> (code points below 256). Floating-point numbers, booleans and nested
  containers as field values are outside this type.
\<close>

datatype pyval = PNone | PInt int | PStr string

text \<open>A \<open>dict\<close> with string keys, in insertion order (keys are distinct).\<close>

type_synonym pydict = "(string \<times> pyval) list"

text \<open>
  The exceptions the code can raise. \<open>FormatError\<close> is the plain
  \<open>raise Exception(msg)\<close> of \<open>simplify_future_native_code\<close>, under the name
  the specification gives it; the others are raised by the interpreter.
\<close>

datatype error =
    FormatError string
  | KeyError string
  | ValueError
  | IndexError
  | AttributeError
  | TypeError

definition dict_item :: "pydict \<Rightarrow> string \<Rightarrow> error + pyval" where
  \<comment> \<open>\<open>d[k]\<close>\<close>
  "dict_item d k = (case map_of d k of None \<Rightarrow> Inl (KeyError k) | Some v \<Rightarrow> Inr v)"

definition dict_get :: "pydict \<Rightarrow> string \<Rightarrow> pyval \<Rightarrow> pyval" where
  \<comment> \<open>\<open>d.get(k, default)\<close>\<close>
  "dict_get d k dflt = (case map_of d k of None \<Rightarrow> dflt | Some v \<Rightarrow> v)"

fun dict_set :: "pydict \<Rightarrow> string \<Rightarrow> pyval \<Rightarrow> pydict" where
  \<comment> \<open>\<open>d[k] = v\<close>: an existing key keeps its position, a new key goes last\<close>
  "dict_set [] k v = [(k, v)]"
| "dict_set ((k', v') # d) k v = (if k' = k then (k, v) # d else (k', v') # dict_set d k v)"

definition dict_keys :: "pydict \<Rightarrow> string list" where
  "dict_keys d = map fst d"

subsection \<open>Strings\<close>

definition sq :: string where
  \<comment> \<open>the single-quote character, as a string\<close>
  "sq = [CHR 0x27]"

definition nl :: string where
  \<comment> \<open>the newline character, as a string\<close>
  "nl = [CHR 0x0A]"

fun str_join :: "string \<Rightarrow> string list \<Rightarrow> string" where
  \<comment> \<open>\<open>sep.join(xs)\<close>\<close>
  "str_join sep [] = []"
| "str_join sep [x] = x"
| "str_join sep (x # y # ys) = x @ sep @ str_join sep (y # ys)"

fun split_on :: "char \<Rightarrow> string \<Rightarrow> string list" where
  \<comment> \<open>\<open>s.split(sep)\<close> for a one-character separator\<close>
  "split_on sep [] = [[]]"
| "split_on sep (c # cs) =
     (if c = sep then [] # split_on sep cs
      else (case split_on sep cs of p # ps \<Rightarrow> (c # p) # ps | [] \<Rightarrow> [[c]]))"

definition endswith :: "string \<Rightarrow> string \<Rightarrow> bool" where
  \<comment> \<open>\<open>s.endswith(suf)\<close>\<close>
  "endswith s suf = (length suf \<le> length s \<and> drop (length s - length suf) s = suf)"

fun replace_from :: "string \<Rightarrow> string \<Rightarrow> nat \<Rightarrow> string \<Rightarrow> string" where
  \<comment> \<open>left-to-right replacement of the non-overlapping occurrences of a non-empty
      \<open>old\<close>; \<open>skip\<close> counts the characters of a match still to be dropped\<close>
  "replace_from old new skip [] = []"
| "replace_from old new skip (c # cs) =
     (if 0 < skip then replace_from old new (skip - 1) cs
      else if take (length old) (c # cs) = old
        then new @ replace_from old new (length old - 1) cs
      else c # replace_from old new 0 cs)"

definition str_replace :: "string \<Rightarrow> string \<Rightarrow> string \<Rightarrow> string" where
  \<comment> \<open>\<open>s.replace(old, new)\<close>, for a non-empty \<open>old\<close>\<close>
  "str_replace s old new = replace_from old new 0 s"

definition str_index :: "string \<Rightarrow> int \<Rightarrow> error + char" where
  \<comment> \<open>\<open>s[i]\<close>: a negative index counts from the end\<close>
  "str_index s i =
     (let n = int (length s); j = (if i < 0 then n + i else i)
      in if 0 \<le> j \<and> j < n then Inr (s ! nat j) else Inl IndexError)"

subsection \<open>Decimal conversions\<close>

definition is_digit :: "char \<Rightarrow> bool" where
  "is_digit c = (48 \<le> (of_char c :: nat) \<and> (of_char c :: nat) \<le> 57)"

definition is_space :: "char \<Rightarrow> bool" where
  \<comment> \<open>the white space \<open>int()\<close> strips, among the code points below 256: tab to
      carriage return, space, next line and no-break space (it does not strip the
      separators U+001C to U+001F)\<close>
  "is_space c =
     (let n = (of_char c :: nat)
      in (9 \<le> n \<and> n \<le> 13) \<or> n = 32 \<or> n = 133 \<or> n = 160)"

definition py_strip :: "string \<Rightarrow> string" where
  "py_strip s = rev (dropWhile is_space (rev (dropWhile is_space s)))"

fun digits_body :: "string \<Rightarrow> bool" where
  \<comment> \<open>decimal digits, single underscores allowed between two digits\<close>
  "digits_body [] = False"
| "digits_body [c] = is_digit c"
| "digits_body (c # d # r) =
     (is_digit c \<and> (if d = CHR ''_'' then digits_body r else digits_body (d # r)))"

definition digits_value :: "string \<Rightarrow> nat" where
  "digits_value b =
     foldl (\<lambda>a c. if c = CHR ''_'' then a else 10 * a + ((of_char c :: nat) - 48)) 0 b"

definition py_int :: "string \<Rightarrow> error + int" where
  \<comment> \<open>\<open>int(s)\<close> in base 10 (here applied to a two-character slice only)\<close>
  "py_int s =
     (let t = py_strip s;
          neg = (t \<noteq> [] \<and> hd t = CHR ''-'');
          b = (if t \<noteq> [] \<and> (hd t = CHR ''-'' \<or> hd t = CHR ''+'') then tl t else t)
      in if digits_body b
         then Inr (if neg then - int (digits_value b) else int (digits_value b))
         else Inl ValueError)"

function nat_digits :: "nat \<Rightarrow> string" where
  "nat_digits n =
     (if n < 10 then [''0123456789'' ! n]
      else nat_digits (n div 10) @ [''0123456789'' ! (n mod 10)])"
  by pat_completeness auto
termination
  by (relation "measure (\<lambda>n. n)") auto

definition int_str :: "int \<Rightarrow> string" where
  "int_str i = (if i < 0 then CHR ''-'' # nat_digits (nat (- i)) else nat_digits (nat i))"

fun py_str :: "pyval \<Rightarrow> string" where
  \<comment> \<open>\<open>str(v)\<close>, also what \<open>format\<close> and f-strings insert\<close>
  "py_str PNone = ''None''"
| "py_str (PInt i) = int_str i"
| "py_str (PStr s) = s"

section \<open>The Future-Code Simplifier\<close>

definition month_codes :: string where
  "month_codes = ''FGHJKMNQUVXZ''"

definition simplify_future_native_code :: "string \<Rightarrow> error + string" where
  "simplify_future_native_code symbol =
     (let parts = split_on CHR ''_'' symbol in
      if length parts \<noteq> 2
        then Inl (FormatError (''expected symbol to split into 2 parts, '' @ sq @ symbol @ sq))
      else if length (parts ! 1) \<noteq> 6
        then Inl (FormatError (''expected symbol-date to have len 6, '' @ sq @ parts ! 1 @ sq))
      else
        (let year = take 2 (parts ! 1) in
         case py_int (take 2 (drop 2 (parts ! 1))) of
           Inl e \<Rightarrow> Inl e
         | Inr month \<Rightarrow>
             (case str_index month_codes (month - 1) of
                Inl e \<Rightarrow> Inl e
              | Inr month_code \<Rightarrow>
                  (case str_index year 1 of
                     Inl e \<Rightarrow> Inl e
                   | Inr y \<Rightarrow> Inr (str_join ''.'' [[month_code, y], ''BNC''])))))"


section \<open>Diagnostics and the warn-once set\<close>

text \<open>
  What a run emits besides its result: calls of \<open>logging.info\<close> and
  \<open>logging.warning\<close> (\<open>logging.warn\<close> is the same call under its old name) and lines
  printed to standard output. The text of the message that formats the ignore-set depends on
  the iteration order of a Python \<open>set\<close>, so that message carries the set itself.
\<close>

datatype diag =
    LogInfo string
  | LogInfoIgnoring "string set"
  | LogWarning string
  | Printed string

text \<open>
  The state a run threads through: the module-level set \<open>log_warn_once_msgs\<close> and the
  diagnostics emitted so far, oldest first.
\<close>

record pstate =
  log_warn_once_msgs :: "string set"
  emitted :: "diag list"

definition initial_state :: pstate where
  "initial_state = \<lparr>log_warn_once_msgs = {}, emitted = []\<rparr>"

definition emit :: "diag \<Rightarrow> pstate \<Rightarrow> pstate" where
  "emit d st = st\<lparr>emitted := emitted st @ [d]\<rparr>"

definition log_warn_once :: "string \<Rightarrow> pstate \<Rightarrow> pstate" where
  "log_warn_once msg st =
     (if msg \<notin> log_warn_once_msgs st
      then emit (LogWarning msg) (st\<lparr>log_warn_once_msgs := insert msg (log_warn_once_msgs st)\<rparr>)
      else st)"

section \<open>Raw symbol items\<close>

text \<open>
  One entry of the document's \<open>symbols\<close> list: its scalar fields, and the value of its
  \<open>filters\<close> key (a list of filter entries) when the key is present.
\<close>

record raw_item =
  scalars :: pydict
  filters :: "pydict list option"

definition in_ignore_set :: "pyval \<Rightarrow> string set \<Rightarrow> bool" where
  \<comment> \<open>\<open>filterType in filters_to_ignore\<close>\<close>
  "in_ignore_set v S = (case v of PStr s \<Rightarrow> s \<in> S | _ \<Rightarrow> False)"

definition ignoring_msg :: "pyval \<Rightarrow> string" where
  \<comment> \<open>\<open>"ignoring binance filter '{}'".format(filterType)\<close>\<close>
  "ignoring_msg filterType = ''ignoring binance filter '' @ sq @ py_str filterType @ sq"

section \<open>The spot normalizer\<close>

definition spot_filters_to_ignore :: "string set" where
  "spot_filters_to_ignore =
     {''MAX_NUM_ALGO_ORDERS'', ''ICEBERG_PARTS'', ''MARKET_LOT_SIZE'', ''PERCENT_PRICE'',
      ''TRAILING_DELTA'', ''PERCENT_PRICE_BY_SIDE'', ''MAX_POSITION''}"

definition spot_filter :: "pydict \<Rightarrow> pydict \<Rightarrow> pstate \<Rightarrow> (error + pydict) \<times> pstate" where
  \<comment> \<open>the body of the loop over \<open>item['filters']\<close>\<close>
  "spot_filter flt row st =
     (case dict_item flt ''filterType'' of
        Inl e \<Rightarrow> (Inl e, st)
      | Inr filterType \<Rightarrow>
          if filterType = PStr ''LOT_SIZE'' then
            (case dict_item flt ''minQty'' of Inl e \<Rightarrow> (Inl e, st) | Inr minQty \<Rightarrow>
             case dict_item flt ''maxQty'' of Inl e \<Rightarrow> (Inl e, st) | Inr maxQty \<Rightarrow>
             case dict_item flt ''stepSize'' of Inl e \<Rightarrow> (Inl e, st) | Inr stepSize \<Rightarrow>
               (Inr (dict_set (dict_set (dict_set row ''minQty'' minQty) ''maxQty'' maxQty)
                       ''lotQty'' stepSize), st))
          else if filterType = PStr ''MIN_NOTIONAL'' then
            (case dict_item flt ''minNotional'' of Inl e \<Rightarrow> (Inl e, st) | Inr v \<Rightarrow>
               (Inr (dict_set row ''minNotional'' v), st))
          else if filterType = PStr ''PRICE_FILTER'' then
            (case dict_item flt ''tickSize'' of Inl e \<Rightarrow> (Inl e, st) | Inr v \<Rightarrow>
               (Inr (dict_set row ''tickSize'' v), st))
          else if filterType = PStr ''MAX_NUM_ORDERS'' then
            (case dict_item flt ''maxNumOrders'' of Inl e \<Rightarrow> (Inl e, st) | Inr v \<Rightarrow>
               (Inr (dict_set row ''maxNumOrders'' v), st))
          else if in_ignore_set filterType spot_filters_to_ignore then (Inr row, st)
          else (Inr row, log_warn_once (ignoring_msg filterType) st))"

fun spot_filters :: "pydict list \<Rightarrow> pydict \<Rightarrow> pstate \<Rightarrow> (error + pydict) \<times> pstate" where
  "spot_filters [] row st = (Inr row, st)"
| "spot_filters (flt # fs) row st =
     (case spot_filter flt row st of
        (Inl e, st') \<Rightarrow> (Inl e, st')
      | (Inr row', st') \<Rightarrow> spot_filters fs row' st')"

definition spot_item :: "raw_item \<Rightarrow> pstate \<Rightarrow> (error + pydict) \<times> pstate" where
  \<comment> \<open>the body of the loop over \<open>symbols\<close>, up to \<open>rows.append(row)\<close>\<close>
  "spot_item item st =
     (case dict_item (scalars item) ''baseAsset'' of Inl e \<Rightarrow> (Inl e, st) | Inr baseAsset \<Rightarrow>
      case dict_item (scalars item) ''quoteAsset'' of Inl e \<Rightarrow> (Inl e, st) | Inr quoteAsset \<Rightarrow>
      let asset_id_root = py_str baseAsset @ ''/'' @ py_str quoteAsset in
      case dict_item (scalars item) ''symbol'' of Inl e \<Rightarrow> (Inl e, st) | Inr symbol \<Rightarrow>
      case dict_item (scalars item) ''quoteAssetPrecision'' of Inl e \<Rightarrow> (Inl e, st) | Inr qp \<Rightarrow>
      case dict_item (scalars item) ''baseAssetPrecision'' of Inl e \<Rightarrow> (Inl e, st) | Inr bp \<Rightarrow>
      case dict_item (scalars item) ''status'' of Inl e \<Rightarrow> (Inl e, st) | Inr status \<Rightarrow>
      let row = dict_set [] ''symbol'' symbol;
          row = dict_set row ''instId'' (PStr (asset_id_root @ ''.BNC''));
          row = dict_set row ''type'' (PStr ''coinpair'');
          row = dict_set row ''venue'' (PStr ''binance'');
          row = dict_set row ''baseAsset'' baseAsset;
          row = dict_set row ''quoteAsset'' quoteAsset;
          row = dict_set row ''quoteAsset'' quoteAsset;
          row = dict_set row ''quoteAssetPrecision'' qp;
          row = dict_set row ''baseAssetPrecision'' bp;
          row = dict_set row ''status'' status
      in case filters item of
           None \<Rightarrow> (Inl (KeyError ''filters''), st)
         | Some fs \<Rightarrow> spot_filters fs row st)"

fun spot_symbols ::
  "raw_item list \<Rightarrow> pydict list \<Rightarrow> pstate \<Rightarrow> (error + pydict list) \<times> pstate" where
  "spot_symbols [] rows st = (Inr rows, st)"
| "spot_symbols (item # items) rows st =
     (case spot_item item st of
        (Inl e, st') \<Rightarrow> (Inl e, st')
      | (Inr row, st') \<Rightarrow> spot_symbols items (rows @ [row]) st')"

definition parse_binance_spot_exchange_info ::
  "string \<Rightarrow> raw_item list \<Rightarrow> pstate \<Rightarrow> (error + pydict list) \<times> pstate" where
  \<comment> \<open>\<open>symbols\<close> is \<open>data["symbols"]\<close> of the document read from \<open>fn\<close>\<close>
  "parse_binance_spot_exchange_info fn symbols st =
     (let st = emit (LogInfo (''reading file '' @ sq @ fn @ sq)) st;
          st = emit (LogInfo (''file has '' @ nat_digits (length symbols) @ '' symbols'')) st;
          st = emit (LogInfoIgnoring spot_filters_to_ignore) st
      in spot_symbols symbols [] st)"

section \<open>The Contract-Type Classifier\<close>

definition normalise_contractType ::
  "pyval \<Rightarrow> pstate \<Rightarrow> (string option \<times> string option) \<times> pstate" where
  "normalise_contractType contractType st =
     (if contractType = PStr ''PERPETUAL'' then ((Some ''perp'', Some ''PF''), st)
      else if contractType \<in> set [PStr ''CURRENT_QUARTER'', PStr ''NEXT_QUARTER'']
        then ((Some ''future'', Some []), st)
      else ((None, None), emit (Printed (''unhandled contract type: '' @ py_str contractType)) st))"

section \<open>The derivative normalizer\<close>

definition usdfut_filters_to_ignore :: "string set" where
  "usdfut_filters_to_ignore =
     {''MAX_NUM_ALGO_ORDERS'', ''ICEBERG_PARTS'', ''MARKET_LOT_SIZE'', ''PERCENT_PRICE''}"

definition py_endswith :: "pyval \<Rightarrow> string \<Rightarrow> error + bool" where
  \<comment> \<open>\<open>symbol.endswith(suf)\<close>: only a \<open>str\<close> has the method\<close>
  "py_endswith v suf = (case v of PStr s \<Rightarrow> Inr (endswith s suf) | _ \<Rightarrow> Inl AttributeError)"

definition perp_instId :: "string option \<Rightarrow> pyval \<Rightarrow> string \<Rightarrow> error + string" where
  \<comment> \<open>the \<open>if\<close>/\<open>elif\<close>/\<open>else\<close> that sets \<open>row["instId"]\<close>; \<open>and\<close>
      evaluates \<open>endswith\<close> only for a perp\<close>
  "perp_instId assetType symbol asset_id_root =
     (if assetType = Some ''perp'' then
        (case py_endswith symbol ''_PERP'' of
           Inl e \<Rightarrow> Inl e
         | Inr ends_underscore \<Rightarrow>
             if \<not> ends_underscore then Inr (asset_id_root @ ''.PF.BNC'')
             else
               (case py_endswith symbol ''.PERP'' of
                  Inl e \<Rightarrow> Inl e
                | Inr ends_dot \<Rightarrow>
                    if ends_dot then
                      (case symbol of
                         PStr s \<Rightarrow> Inr (str_replace s ''_PERP'' ''.PF'' @ ''.BNC'')
                       | _ \<Rightarrow> Inl AttributeError)
                    else Inr (asset_id_root @ ''.BNC'')))
      else Inr (asset_id_root @ ''.BNC''))"

definition future_instId :: "pyval \<Rightarrow> string \<Rightarrow> error + string" where
  \<comment> \<open>\<open>"{}.{}".format(asset_id_root, simplify_future_native_code(symbol))\<close>;
      \<open>symbol.split\<close> exists only on a \<open>str\<close>\<close>
  "future_instId symbol asset_id_root =
     (case symbol of
        PStr s \<Rightarrow>
          (case simplify_future_native_code s of
             Inl e \<Rightarrow> Inl e
           | Inr code \<Rightarrow> Inr (asset_id_root @ ''.'' @ code))
      | _ \<Rightarrow> Inl AttributeError)"

definition usdfut_filter :: "pydict \<Rightarrow> pydict \<Rightarrow> pstate \<Rightarrow> (error + pydict) \<times> pstate" where
  \<comment> \<open>the body of the loop over \<open>item['filters']\<close>\<close>
  "usdfut_filter flt row st =
     (case dict_item flt ''filterType'' of
        Inl e \<Rightarrow> (Inl e, st)
      | Inr filterType \<Rightarrow>
          if filterType = PStr ''LOT_SIZE'' then
            (case dict_item flt ''minQty'' of Inl e \<Rightarrow> (Inl e, st) | Inr minQty \<Rightarrow>
             case dict_item flt ''maxQty'' of Inl e \<Rightarrow> (Inl e, st) | Inr maxQty \<Rightarrow>
             case dict_item flt ''stepSize'' of Inl e \<Rightarrow> (Inl e, st) | Inr stepSize \<Rightarrow>
               (Inr (dict_set (dict_set (dict_set row ''minQty'' minQty) ''maxQty'' maxQty)
                       ''lotQty'' stepSize), st))
          else if filterType = PStr ''MIN_NOTIONAL'' then
            (case dict_item flt ''notional'' of Inl e \<Rightarrow> (Inl e, st) | Inr v \<Rightarrow>
               (Inr (dict_set row ''minNotional'' v), st))
          else if filterType = PStr ''PRICE_FILTER'' then
            (case dict_item flt ''tickSize'' of Inl e \<Rightarrow> (Inl e, st) | Inr v \<Rightarrow>
               (Inr (dict_set row ''tickSize'' v), st))
          else if filterType = PStr ''MAX_NUM_ORDERS'' then
            (case dict_item flt ''limit'' of Inl e \<Rightarrow> (Inl e, st) | Inr v \<Rightarrow>
               (Inr (dict_set row ''maxNumOrders'' v), st))
          else if in_ignore_set filterType usdfut_filters_to_ignore then (Inr row, st)
          else (Inr row, emit (LogWarning (ignoring_msg filterType)) st))"

fun usdfut_filters :: "pydict list \<Rightarrow> pydict \<Rightarrow> pstate \<Rightarrow> (error + pydict) \<times> pstate" where
  "usdfut_filters [] row st = (Inr row, st)"
| "usdfut_filters (flt # fs) row st =
     (case usdfut_filter flt row st of
        (Inl e, st') \<Rightarrow> (Inl e, st')
      | (Inr row', st') \<Rightarrow> usdfut_filters fs row' st')"

definition usdfut_status :: "pydict \<Rightarrow> pyval" where
  \<comment> \<open>\<open>status\<close>, else \<open>contractStatus\<close>, else the literal \<open>"unknown"\<close>\<close>
  "usdfut_status d =
     (case map_of d ''status'' of
        Some v \<Rightarrow> v
      | None \<Rightarrow> (case map_of d ''contractStatus'' of Some v \<Rightarrow> v | None \<Rightarrow> PStr ''unknown''))"

definition usdfut_row ::
  "string \<Rightarrow> raw_item \<Rightarrow> string \<Rightarrow> string \<Rightarrow> pydict \<Rightarrow> pstate \<Rightarrow> (error + pydict) \<times> pstate" where
  \<comment> \<open>the loop body from \<open>row["type"] = assetType\<close> on, for a classified item whose
      \<open>instId\<close> has been computed\<close>
  "usdfut_row venue item assetType instId row st =
     (let row = dict_set row ''instId'' (PStr instId);
          row = dict_set row ''type'' (PStr assetType);
          row = dict_set row ''venue'' (PStr venue)
      in
      case dict_item (scalars item) ''baseAsset'' of Inl e \<Rightarrow> (Inl e, st) | Inr baseAsset \<Rightarrow>
      case dict_item (scalars item) ''quoteAsset'' of Inl e \<Rightarrow> (Inl e, st) | Inr quoteAsset \<Rightarrow>
      case dict_item (scalars item) ''marginAsset'' of Inl e \<Rightarrow> (Inl e, st) | Inr marginAsset \<Rightarrow>
      case dict_item (scalars item) ''quotePrecision'' of Inl e \<Rightarrow> (Inl e, st) | Inr qp \<Rightarrow>
      case dict_item (scalars item) ''baseAssetPrecision'' of Inl e \<Rightarrow> (Inl e, st) | Inr bp \<Rightarrow>
      let row = dict_set row ''baseAsset'' baseAsset;
          row = dict_set row ''quoteAsset'' quoteAsset;
          row = dict_set row ''marginAsset'' marginAsset;
          row = dict_set row ''quoteAssetPrecision'' qp;
          row = dict_set row ''baseAssetPrecision'' bp;
          row = dict_set row ''status'' (usdfut_status (scalars item));
          row = dict_set row ''underlyingType'' (dict_get (scalars item) ''underlyingType'' PNone);
          row = dict_set row ''contractType'' (dict_get (scalars item) ''contractType'' PNone)
      in case filters item of
           None \<Rightarrow> (Inl (KeyError ''filters''), st)
         | Some fs \<Rightarrow> usdfut_filters fs row st)"

definition usdfut_item ::
  "string \<Rightarrow> raw_item \<Rightarrow> pstate \<Rightarrow> (error + pydict option) \<times> pstate" where
  \<comment> \<open>the body of the loop over \<open>symbols\<close>: \<open>Inr None\<close> is \<open>continue\<close>,
      \<open>Inr (Some row)\<close> reaches \<open>rows.append(row)\<close>\<close>
  "usdfut_item venue item st =
     (case dict_item (scalars item) ''baseAsset'' of Inl e \<Rightarrow> (Inl e, st) | Inr baseAsset \<Rightarrow>
      case dict_item (scalars item) ''quoteAsset'' of Inl e \<Rightarrow> (Inl e, st) | Inr quoteAsset \<Rightarrow>
      let asset_id_root = py_str baseAsset @ ''/'' @ py_str quoteAsset in
      case dict_item (scalars item) ''symbol'' of Inl e \<Rightarrow> (Inl e, st) | Inr symbol \<Rightarrow>
      let row = dict_set [] ''symbol'' symbol in
      case dict_item (scalars item) ''contractType'' of Inl e \<Rightarrow> (Inl e, st) | Inr ct \<Rightarrow>
      case normalise_contractType ct st of ((assetType, assetShortType), st) \<Rightarrow>
      (case assetType of
         None \<Rightarrow>
           (Inr None,
            emit (LogInfo (''skipping asset '' @ sq @ py_str symbol @ sq @ '', assetType is None'')) st)
       | Some aty \<Rightarrow>
           (let row = dict_set row ''instId'' (PStr asset_id_root) in
            case perp_instId assetType symbol asset_id_root of
              Inl e \<Rightarrow> (Inl e, st)
            | Inr instId \<Rightarrow>
                (case (if aty = ''future'' then future_instId symbol asset_id_root else Inr instId) of
                   Inl e \<Rightarrow> (Inl e, st)
                 | Inr instId \<Rightarrow>
                     (case usdfut_row venue item aty instId row st of
                        (Inl e, st) \<Rightarrow> (Inl e, st)
                      | (Inr row, st) \<Rightarrow> (Inr (Some row), st))))))"

fun usdfut_symbols ::
  "string \<Rightarrow> raw_item list \<Rightarrow> pydict list \<Rightarrow> pstate \<Rightarrow> (error + pydict list) \<times> pstate" where
  "usdfut_symbols venue [] rows st = (Inr rows, st)"
| "usdfut_symbols venue (item # items) rows st =
     (case usdfut_item venue item st of
        (Inl e, st') \<Rightarrow> (Inl e, st')
      | (Inr None, st') \<Rightarrow> usdfut_symbols venue items rows st'
      | (Inr (Some row), st') \<Rightarrow> usdfut_symbols venue items (rows @ [row]) st')"

definition parse_binance_usdfut_exchange_info ::
  "string \<Rightarrow> string \<Rightarrow> raw_item list \<Rightarrow> pstate \<Rightarrow> (error + pydict list) \<times> pstate" where
  \<comment> \<open>\<open>symbols\<close> is \<open>data["symbols"]\<close> of the document read from \<open>fn\<close>\<close>
  "parse_binance_usdfut_exchange_info fn venue symbols st =
     (let st = emit (LogInfo (''reading file '' @ sq @ fn @ sq)) st;
          st = emit (LogInfo (''file has '' @ nat_digits (length symbols) @ '' symbols'')) st;
          st = emit (LogInfoIgnoring usdfut_filters_to_ignore) st
      in usdfut_symbols venue symbols [] st)"

section \<open>Column Discovery\<close>

definition header_step :: "string \<Rightarrow> string list \<times> string set \<Rightarrow> string list \<times> string set" where
  \<comment> \<open>the body of the inner loop, on \<open>(header_cols, header_cols_unique)\<close>\<close>
  "header_step key acc =
     (case acc of (header_cols, header_cols_unique) \<Rightarrow>
        if key \<notin> header_cols_unique
        then (header_cols @ [key], set (header_cols @ [key]))
        else (header_cols, header_cols_unique))"

definition extract_header_cols :: "pydict list \<Rightarrow> string \<Rightarrow> string list" where
  \<comment> \<open>\<open>set(index_field)\<close> is the set of the one-character strings of \<open>index_field\<close>\<close>
  "extract_header_cols rows index_field =
     fst (fold (\<lambda>row. fold header_step (dict_keys row)) rows
            ([index_field], (\<lambda>c. [c]) ` set index_field))"

section \<open>The CSV Writer\<close>

fun csv_lines ::
  "pydict list \<Rightarrow> string \<Rightarrow> string list \<Rightarrow> (pyval \<times> pyval list) list \<Rightarrow> pstate \<Rightarrow>
   (error + (pyval \<times> pyval list) list) \<times> pstate" where
  \<comment> \<open>the loop that fills \<open>lines\<close>, a dict from row id to line, in insertion order\<close>
  "csv_lines [] index_field header_cols lines st = (Inr lines, st)"
| "csv_lines (row # rows) index_field header_cols lines st =
     (case dict_item row index_field of
        Inl e \<Rightarrow> (Inl e, st)
      | Inr row_id \<Rightarrow>
          (let line = map (\<lambda>col. dict_get row col (PStr [])) header_cols in
           if map_of lines row_id \<noteq> None
           then csv_lines rows index_field header_cols lines
                  (emit (Printed (''ignoring duplicate row for '' @ sq @ py_str row_id @ sq)) st)
           else csv_lines rows index_field header_cols (lines @ [(row_id, line)]) st))"

fun the_str :: "pyval \<Rightarrow> string" where
  "the_str (PStr s) = s"
| "the_str _ = []"

fun the_int :: "pyval \<Rightarrow> int" where
  "the_int (PInt i) = i"
| "the_int _ = 0"

fun is_str :: "pyval \<Rightarrow> bool" where
  "is_str (PStr s) = True"
| "is_str _ = False"

fun is_int :: "pyval \<Rightarrow> bool" where
  "is_int (PInt i) = True"
| "is_int _ = False"

definition py_sorted :: "pyval list \<Rightarrow> error + pyval list" where
  \<comment> \<open>\<open>sorted(ks)\<close>: strings compare by code point, integers by value; comparing
      values of two different types, or \<open>None\<close> with \<open>None\<close>, raises\<close>
  "py_sorted ks =
     (if list_all is_str ks then Inr (map PStr (sort (map the_str ks)))
      else if list_all is_int ks then Inr (map PInt (sort (map the_int ks)))
      else if length ks \<le> 1 then Inr ks
      else Inl TypeError)"

definition line_of :: "(pyval \<times> pyval list) list \<Rightarrow> pyval \<Rightarrow> pyval list" where
  \<comment> \<open>\<open>lines[key]\<close> for a key taken from \<open>lines.keys()\<close>\<close>
  "line_of lines key = (case map_of lines key of Some line \<Rightarrow> line | None \<Rightarrow> [])"

definition write_csv_file ::
  "string \<Rightarrow> pydict list \<Rightarrow> string \<Rightarrow> string \<Rightarrow> pstate \<Rightarrow> (error + string list) \<times> pstate" where
  \<comment> \<open>the result is the list of the strings written to the file, in order; a missing key
      field raises before the file is opened, and a failing \<open>sorted\<close> raises after the
      header has been written (the partial file is not part of the result)\<close>
  "write_csv_file fn rows index_field delim st =
     (let header_cols = extract_header_cols rows index_field in
      case csv_lines rows index_field header_cols [] st of
        (Inl e, st) \<Rightarrow> (Inl e, st)
      | (Inr lines, st) \<Rightarrow>
          (let st = emit (LogInfo (''writing file '' @ sq @ fn @ sq)) st in
           case py_sorted (map fst lines) of
             Inl e \<Rightarrow> (Inl e, st)
           | Inr keys \<Rightarrow>
               (Inr ([str_join delim header_cols, nl] @
                     concat (map (\<lambda>key. [str_join delim (map py_str (line_of lines key)), nl]) keys)),
                st)))"

section \<open>Notions used to state the properties\<close>

definition digit_val :: "char \<Rightarrow> nat" where
  \<comment> \<open>the value of a decimal digit\<close>
  "digit_val c = (of_char c :: nat) - 48"

fun first_rows :: "string \<Rightarrow> pyval set \<Rightarrow> pydict list \<Rightarrow> pydict list" where
  \<comment> \<open>the records that survive the duplicate policy of the writer: those whose key value
      is neither in \<open>seen\<close> nor carried by an earlier record\<close>
  "first_rows kf seen [] = []"
| "first_rows kf seen (r # rs) =
     (case map_of r kf of
        None \<Rightarrow> []
      | Some k \<Rightarrow> if k \<in> seen then first_rows kf seen rs else r # first_rows kf (insert k seen) rs)"

definition csv_cells :: "string list \<Rightarrow> pydict \<Rightarrow> pyval list" where
  \<comment> \<open>the line of a record: one cell per column, the empty string where the field is missing\<close>
  "csv_cells header_cols row = map (\<lambda>col. dict_get row col (PStr [])) header_cols"

definition duplicate_msg :: "pyval \<Rightarrow> string" where
  \<comment> \<open>\<open>"ignoring duplicate row for '{}'".format(row_id)\<close>\<close>
  "duplicate_msg row_id = ''ignoring duplicate row for '' @ sq @ py_str row_id @ sq"

definition warning_count :: "string \<Rightarrow> pstate \<Rightarrow> nat" where
  \<comment> \<open>how often the warning with text \<open>msg\<close> has been emitted\<close>
  "warning_count msg st = length (filter (\<lambda>d. d = LogWarning msg) (emitted st))"

definition warn_once_inv :: "pstate \<Rightarrow> bool" where
  \<comment> \<open>the warn-once set holds exactly the warnings emitted, each emitted once\<close>
  "warn_once_inv st =
     (\<forall>msg. warning_count msg st = (if msg \<in> log_warn_once_msgs st then 1 else 0))"

fun first_seen :: "string list \<Rightarrow> string list \<Rightarrow> string list" where
  \<comment> \<open>\<open>acc\<close> followed by the names of \<open>ks\<close> not yet listed, in first-occurrence order\<close>
  "first_seen acc [] = acc"
| "first_seen acc (k # ks) = (if k \<in> set acc then first_seen acc ks else first_seen (acc @ [k]) ks)"

definition item_records :: "string \<Rightarrow> raw_item \<Rightarrow> pstate \<Rightarrow> pydict list" where
  \<comment> \<open>the records one item contributes to the result of the derivative normalizer: the
      record built from it, or none when the item is skipped\<close>
  "item_records venue item st =
     (case fst (usdfut_item venue item st) of Inr (Some row) \<Rightarrow> [row] | _ \<Rightarrow> [])"

definition example_coin_perp :: raw_item where
  \<comment> \<open>a coin-margined perpetual that carries \<open>underlyingType\<close>\<close>
  "example_coin_perp =
     \<lparr>scalars = [(''symbol'', PStr ''ETHUSD''), (''baseAsset'', PStr ''ETH''),
                 (''quoteAsset'', PStr ''USD''), (''contractType'', PStr ''PERPETUAL''),
                 (''marginAsset'', PStr ''ETH''), (''quotePrecision'', PInt 8),
                 (''baseAssetPrecision'', PInt 8), (''underlyingType'', PStr ''COIN'')],
       filters = Some []\<rparr>"

definition example_usdt_perp :: raw_item where
  \<comment> \<open>a perpetual without the field \<open>underlyingType\<close>\<close>
  "example_usdt_perp =
     \<lparr>scalars = [(''symbol'', PStr ''BTCUSDT''), (''baseAsset'', PStr ''BTC''),
                 (''quoteAsset'', PStr ''USDT''), (''contractType'', PStr ''PERPETUAL''),
                 (''marginAsset'', PStr ''USDT''), (''quotePrecision'', PInt 8),
                 (''baseAssetPrecision'', PInt 8), (''status'', PStr ''TRADING'')],
       filters = Some []\<rparr>"

section \<open>Properties of the string and integer helpers\<close>

lemma split_on_not_Nil: "split_on sep s \<noteq> []"
  by (induction s) (auto split: list.splits)

lemma split_on_no_sep: "sep \<notin> set s \<Longrightarrow> split_on sep s = [s]"
  by (induction s) auto

lemma split_on_append_sep:
  "sep \<notin> set r \<Longrightarrow> split_on sep (r @ sep # d) = r # split_on sep d"
  by (induction r) auto

lemma split_on_root_date:
  "sep \<notin> set r \<Longrightarrow> sep \<notin> set d \<Longrightarrow> split_on sep (r @ sep # d) = [r, d]"
  by (simp add: split_on_append_sep split_on_no_sep)

lemma is_digit_not_space: "is_digit c \<Longrightarrow> \<not> is_space c"
  by (auto simp: is_digit_def is_space_def Let_def)

lemma is_digit_not_sign:
  "is_digit c \<Longrightarrow> c \<noteq> CHR ''-'' \<and> c \<noteq> CHR ''+'' \<and> c \<noteq> CHR ''_''"
  by (auto simp: is_digit_def)

lemma py_int_two_digits:
  assumes "is_digit a" "is_digit b"
  shows "py_int [a, b] = Inr (int (10 * ((of_char a :: nat) - 48) + ((of_char b :: nat) - 48)))"
  using assms is_digit_not_space[of a] is_digit_not_space[of b]
    is_digit_not_sign[of a] is_digit_not_sign[of b]
  by (simp add: py_int_def py_strip_def digits_value_def Let_def)

lemma length_py_strip: "length (py_strip s) \<le> length s"
  unfolding py_strip_def
  by (metis length_dropWhile_le length_rev order_trans)

lemma digits_value_single: "is_digit c \<Longrightarrow> digits_value [c] \<le> 9"
  by (auto simp: digits_value_def is_digit_def)

text \<open>The integer read from a two-character string is never below \<open>-9\<close>.\<close>

lemma py_int_two_chars_lower:
  assumes "length s = 2" "py_int s = Inr m"
  shows "- 9 \<le> m"
proof -
  let ?t = "py_strip s"
  have len: "length ?t \<le> 2" using length_py_strip[of s] assms(1) by simp
  show ?thesis
  proof (cases "?t \<noteq> [] \<and> hd ?t = CHR ''-''")
    case True
    then obtain b where t: "?t = CHR ''-'' # b" by (cases ?t) auto
    with len have "length b \<le> 1" by simp
    then consider "b = []" | c where "b = [c]"
      by (cases b) auto
    then show ?thesis
    proof cases
      case 1
      with t assms(2) show ?thesis by (simp add: py_int_def Let_def)
    next
      case 2
      with t assms(2) digits_value_single[of c] show ?thesis
        by (auto simp: py_int_def Let_def split: if_splits)
    qed
  next
    case False
    with assms(2) show ?thesis
      by (auto simp: py_int_def Let_def split: if_splits)
  qed
qed

text \<open>
  A separator such as U+001C is not white space to \<open>int()\<close>: next to a digit it makes
  the conversion fail.
\<close>

lemma py_int_separator: "py_int [CHR 0x1C, CHR ''1''] = Inl ValueError"
  by (simp add: py_int_def py_strip_def is_space_def is_digit_def)

lemma py_int_error: "py_int s = Inl e \<Longrightarrow> e = ValueError"
  by (auto simp: py_int_def Let_def split: if_splits)

lemma str_index_error: "str_index s i = Inl e \<Longrightarrow> e = IndexError"
  by (auto simp: str_index_def Let_def split: if_splits)

lemma str_index_month_codes:
  "- 9 \<le> m \<Longrightarrow> (\<exists>c. str_index month_codes (m - 1) = Inr c) \<longleftrightarrow> m < 13"
  by (auto simp: str_index_def month_codes_def Let_def)

lemma month_codes_fail:
  "- 9 \<le> m \<Longrightarrow> str_index month_codes (m - 1) = Inl IndexError \<longleftrightarrow> 13 \<le> m"
  by (auto simp: str_index_def month_codes_def Let_def)

section \<open>The Future-Code Simplifier: results\<close>

text \<open>
  Claim C3, as the code has it. For a symbol \<open>root_YYMMDD\<close> (no underscore in the
  root or in the six-character date, the month a two-digit number from 01 to 12) the
  simplifier returns the six-character string made of the month code, the last digit of the
  year and the suffix \<open>.BNC\<close>: the month indexes the table F G H J K M N Q U V X Z. The
  caller joins this to the asset root, so the venue suffix is part of the result.
\<close>

theorem simplify_wellformed:
  assumes "CHR ''_'' \<notin> set root" and "CHR ''_'' \<notin> set date" and "length date = 6"
    and "is_digit (date ! 2)" and "is_digit (date ! 3)"
    and "1 \<le> 10 * digit_val (date ! 2) + digit_val (date ! 3)"
    and "10 * digit_val (date ! 2) + digit_val (date ! 3) \<le> 12"
  shows "simplify_future_native_code (root @ ''_'' @ date) =
    Inr ([''FGHJKMNQUVXZ'' ! (10 * digit_val (date ! 2) + digit_val (date ! 3) - 1), date ! 1]
         @ ''.BNC'')"
proof -
  define m where "m = 10 * digit_val (date ! 2) + digit_val (date ! 3)"
  have bounds: "1 \<le> m" "m \<le> 12"
    using assms(6,7) by (simp_all add: m_def)
  have parts: "split_on CHR ''_'' (root @ CHR ''_'' # date) = [root, date]"
    using assms(1,2) by (rule split_on_root_date)
  have slice: "take 2 (drop 2 date) = [date ! 2, date ! 3]"
    using assms(3) by (auto simp: list_eq_iff_nth_eq less_Suc_eq eval_nat_numeral)
  have month: "py_int (take 2 (drop 2 date)) = Inr (int m)"
    using py_int_two_digits[OF assms(4,5)] by (simp add: slice digit_val_def m_def)
  have idx: "nat (int m - 1) = m - 1"
    using bounds by linarith
  have code: "str_index month_codes (int m - 1) = Inr (month_codes ! (m - 1))"
    using bounds by (simp add: str_index_def month_codes_def Let_def idx)
  have year: "str_index (take 2 date) 1 = Inr (date ! 1)"
    using assms(3) by (simp add: str_index_def Let_def)
  have "simplify_future_native_code (root @ ''_'' @ date) =
      Inr ([month_codes ! (m - 1), date ! 1] @ ''.BNC'')"
    using assms(3) by (simp add: simplify_future_native_code_def parts month code year)
  then show ?thesis by (simp add: m_def month_codes_def)
qed

text \<open>The theorem at \<open>BTCUSDT_240329\<close>: March is \<open>H\<close>, the year digit is 4.\<close>

theorem simplify_wellformed_witness:
  "CHR ''_'' \<notin> set ''BTCUSDT'' \<and> CHR ''_'' \<notin> set ''240329'' \<and> length ''240329'' = 6 \<and>
   is_digit (''240329'' ! 2) \<and> is_digit (''240329'' ! 3) \<and>
   1 \<le> 10 * digit_val (''240329'' ! 2) + digit_val (''240329'' ! 3) \<and>
   10 * digit_val (''240329'' ! 2) + digit_val (''240329'' ! 3) \<le> 12 \<and>
   simplify_future_native_code (''BTCUSDT'' @ ''_'' @ ''240329'') = Inr ''H4.BNC''"
  using simplify_wellformed[of "''BTCUSDT''" "''240329''"]
  by (simp add: is_digit_def digit_val_def)

text \<open>
  Claim C3 as stated fails: the result for \<open>BTCUSDT_240329\<close> is \<open>H4.BNC\<close>, not the
  two-character string \<open>H4\<close>.
\<close>

theorem simplify_two_char_counterexample:
  "simplify_future_native_code ''BTCUSDT_240329'' = Inr ''H4.BNC'' \<and>
   simplify_future_native_code ''BTCUSDT_240329'' \<noteq> Inr ''H4''"
  by (simp add: simplify_future_native_code_def py_int_def py_strip_def is_space_def
      is_digit_def digits_value_def str_index_def month_codes_def)

text \<open>
  Claim C10. For a symbol that splits into a root and a six-character date whose month
  characters are \<open>00\<close>, the simplifier does not fail: the index \<open>-1\<close> reads the last
  entry of the month table, \<open>Z\<close>. Whenever the month characters read as an integer, the
  simplifier fails exactly when that integer is 13 or more, and the failure is the table
  lookup's \<open>IndexError\<close>.
\<close>

theorem simplify_month_zero:
  assumes "split_on CHR ''_'' symbol = [root, date]" and "length date = 6"
  shows "(take 2 (drop 2 date) = ''00'' \<longrightarrow>
            simplify_future_native_code symbol = Inr ([CHR ''Z'', date ! 1] @ ''.BNC''))
       \<and> (\<forall>month. py_int (take 2 (drop 2 date)) = Inr month \<longrightarrow>
            (simplify_future_native_code symbol = Inl IndexError \<longleftrightarrow> 13 \<le> month) \<and>
            ((\<exists>e. simplify_future_native_code symbol = Inl e) \<longleftrightarrow> 13 \<le> month))"
proof (intro conjI impI allI)
  have year: "str_index (take 2 date) 1 = Inr (date ! 1)"
    using assms(2) by (simp add: str_index_def Let_def)
  {
    assume z: "take 2 (drop 2 date) = ''00''"
    have "py_int ''00'' = Inr 0"
      by (simp add: py_int_def py_strip_def is_space_def is_digit_def digits_value_def)
    moreover have "str_index month_codes (0 - 1) = Inr CHR ''Z''"
      by (simp add: str_index_def month_codes_def)
    ultimately show "simplify_future_native_code symbol = Inr ([CHR ''Z'', date ! 1] @ ''.BNC'')"
      using assms by (simp add: simplify_future_native_code_def z year)
  }
  fix month
  assume m: "py_int (take 2 (drop 2 date)) = Inr month"
  have "length (take 2 (drop 2 date)) = 2" using assms(2) by simp
  from py_int_two_chars_lower[OF this m] have lo: "- 9 \<le> month" .
  show "simplify_future_native_code symbol = Inl IndexError \<longleftrightarrow> 13 \<le> month"
    using assms month_codes_fail[OF lo] str_index_month_codes[OF lo]
    by (auto simp: simplify_future_native_code_def m year split: sum.splits)
  show "(\<exists>e. simplify_future_native_code symbol = Inl e) \<longleftrightarrow> 13 \<le> month"
    using assms month_codes_fail[OF lo] str_index_month_codes[OF lo]
    by (auto simp: simplify_future_native_code_def m year split: sum.splits)
qed

text \<open>
  The theorem at \<open>BTCUSDT_240029\<close> (month \<open>00\<close>, read as 0, gives \<open>Z4.BNC\<close>).
\<close>

theorem simplify_month_zero_witness:
  "split_on CHR ''_'' ''BTCUSDT_240029'' = [''BTCUSDT'', ''240029''] \<and> length ''240029'' = 6 \<and>
   take 2 (drop 2 ''240029'') = ''00'' \<and> py_int (take 2 (drop 2 ''240029'')) = Inr 0 \<and>
   simplify_future_native_code ''BTCUSDT_240029'' = Inr ''Z4.BNC'' \<and>
   simplify_future_native_code ''BTCUSDT_240029'' \<noteq> Inl IndexError"
  using simplify_month_zero[of "''BTCUSDT_240029''" "''BTCUSDT''" "''240029''"]
  by (simp add: py_int_def py_strip_def is_space_def is_digit_def digits_value_def)

section \<open>Evaluation and dictionary lemmas\<close>

lemmas eval_defs =
  dict_item_def dict_get_def dict_keys_def sq_def nl_def endswith_def str_replace_def
  str_index_def is_digit_def is_space_def py_strip_def digits_value_def py_int_def int_str_def
  month_codes_def simplify_future_native_code_def initial_state_def emit_def log_warn_once_def
  in_ignore_set_def ignoring_msg_def spot_filters_to_ignore_def spot_filter_def spot_item_def
  parse_binance_spot_exchange_info_def normalise_contractType_def usdfut_filters_to_ignore_def
  py_endswith_def perp_instId_def future_instId_def usdfut_filter_def usdfut_status_def
  usdfut_row_def usdfut_item_def parse_binance_usdfut_exchange_info_def header_step_def
  extract_header_cols_def py_sorted_def line_of_def write_csv_file_def Let_def

lemma map_of_dict_set: "map_of (dict_set d k v) = (map_of d)(k \<mapsto> v)"
  by (induction d k v rule: dict_set.induct) auto

lemma dict_item_Inr: "dict_item d k = Inr v \<longleftrightarrow> map_of d k = Some v"
  by (simp add: dict_item_def split: option.splits)

lemma dict_item_Inl: "dict_item d k = Inl e \<longleftrightarrow> map_of d k = None \<and> e = KeyError k"
  by (auto simp: dict_item_def split: option.splits)


section \<open>The derivative normalizer: the result does not depend on the diagnostics\<close>

lemma normalise_contractType_fst:
  "fst (normalise_contractType ct st) = fst (normalise_contractType ct st')"
  by (simp add: normalise_contractType_def)

lemma usdfut_filter_fst:
  "fst (usdfut_filter flt row st) = fst (usdfut_filter flt row st')"
  by (simp add: usdfut_filter_def split: sum.splits)

lemma usdfut_filters_fst:
  "fst (usdfut_filters fs row st) = fst (usdfut_filters fs row st')"
proof (induction fs arbitrary: row st st')
  case Nil
  then show ?case by simp
next
  case (Cons flt fs)
  obtain r1 s1 where a: "usdfut_filter flt row st = (r1, s1)" by (cases "usdfut_filter flt row st")
  obtain r2 s2 where b: "usdfut_filter flt row st' = (r2, s2)" by (cases "usdfut_filter flt row st'")
  from usdfut_filter_fst[of flt row st st'] a b have "r1 = r2" by simp
  with a b Cons.IH show ?case by (cases r1) auto
qed

lemma usdfut_row_fst:
  "fst (usdfut_row venue item aty instId row st) = fst (usdfut_row venue item aty instId row st')"
  by (auto simp: usdfut_row_def Let_def split: sum.splits option.splits intro: usdfut_filters_fst)

lemma usdfut_item_fst:
  "fst (usdfut_item venue item st) = fst (usdfut_item venue item st')"
proof -
  have r: "fst (case usdfut_row venue item aty instId row s of
               (Inl e, st) \<Rightarrow> (Inl e, st) | (Inr row, st) \<Rightarrow> (Inr (Some row), st))
         = fst (case usdfut_row venue item aty instId row s' of
               (Inl e, st) \<Rightarrow> (Inl e, st) | (Inr row, st) \<Rightarrow> (Inr (Some row), st))"
    for aty instId row s s'
    using usdfut_row_fst[of venue item aty instId row s s']
    by (cases "usdfut_row venue item aty instId row s"; cases "usdfut_row venue item aty instId row s'")
       (auto split: sum.splits)
  show ?thesis
    by (auto simp: usdfut_item_def normalise_contractType_def Let_def
          split: sum.splits option.splits intro: r)
qed


lemma usdfut_symbols_fst:
  "fst (usdfut_symbols venue items rows st) = fst (usdfut_symbols venue items rows st')"
proof (induction items arbitrary: rows st st')
  case Nil
  then show ?case by simp
next
  case (Cons item items)
  obtain r1 s1 where a: "usdfut_item venue item st = (r1, s1)"
    by (cases "usdfut_item venue item st")
  obtain r2 s2 where b: "usdfut_item venue item st' = (r2, s2)"
    by (cases "usdfut_item venue item st'")
  from usdfut_item_fst[of venue item st st'] a b have "r1 = r2" by simp
  with a b Cons.IH show ?case
    by (auto split: sum.splits option.splits)
qed

lemma usdfut_symbols_append:
  "usdfut_symbols venue (pre @ post) rows st =
     (case usdfut_symbols venue pre rows st of
        (Inl e, st') \<Rightarrow> (Inl e, st')
      | (Inr rows', st') \<Rightarrow> usdfut_symbols venue post rows' st')"
  by (induction pre arbitrary: rows st) (auto split: prod.splits sum.splits option.splits)

lemma usdfut_symbols_fst_append:
  "fst (usdfut_symbols venue (pre @ post) rows st) =
     (case fst (usdfut_symbols venue pre rows st) of
        Inl e \<Rightarrow> Inl e
      | Inr rows' \<Rightarrow> fst (usdfut_symbols venue post rows' st))"
proof (cases "usdfut_symbols venue pre rows st")
  case (Pair r s)
  then show ?thesis
    using usdfut_symbols_fst[of venue post _ s st]
    by (cases r) (simp_all add: usdfut_symbols_append)
qed

lemma parse_usdfut_fst:
  "fst (parse_binance_usdfut_exchange_info fn venue symbols st) =
   fst (usdfut_symbols venue symbols [] st)"
  unfolding parse_binance_usdfut_exchange_info_def Let_def
  by (rule usdfut_symbols_fst)

lemma usdfut_item_skip:
  assumes "map_of (scalars item) ''baseAsset'' \<noteq> None"
    and "map_of (scalars item) ''quoteAsset'' \<noteq> None"
    and "map_of (scalars item) ''symbol'' \<noteq> None"
    and "map_of (scalars item) ''contractType'' = Some ct"
    and "ct \<noteq> PStr ''PERPETUAL''" "ct \<noteq> PStr ''CURRENT_QUARTER''" "ct \<noteq> PStr ''NEXT_QUARTER''"
  shows "fst (usdfut_item venue item st) = Inr None"
  using assms
  by (auto simp: usdfut_item_def normalise_contractType_def dict_item_def Let_def
        split: option.splits)

lemma usdfut_item_format_error:
  assumes "map_of (scalars item) ''baseAsset'' \<noteq> None"
    and "map_of (scalars item) ''quoteAsset'' \<noteq> None"
    and "map_of (scalars item) ''symbol'' = Some (PStr s)"
    and "map_of (scalars item) ''contractType'' = Some ct"
    and "ct = PStr ''CURRENT_QUARTER'' \<or> ct = PStr ''NEXT_QUARTER''"
    and "simplify_future_native_code s = Inl e"
  shows "fst (usdfut_item venue item st) = Inl e"
  using assms
  by (auto simp: usdfut_item_def normalise_contractType_def dict_item_def Let_def
        perp_instId_def future_instId_def split: option.splits)


lemma simplify_format_error_iff:
  "(\<exists>msg. simplify_future_native_code s = Inl (FormatError msg)) \<longleftrightarrow>
   (length (split_on CHR ''_'' s) \<noteq> 2 \<or> length (split_on CHR ''_'' s ! 1) \<noteq> 6)"
  by (auto simp: simplify_future_native_code_def Let_def
        dest: py_int_error str_index_error split: sum.splits)


section \<open>The derivative normalizer: pass-through fields\<close>

lemma usdfut_filter_keeps:
  assumes "usdfut_filter flt row st = (Inr row', st')"
    and "k \<notin> {''minQty'', ''maxQty'', ''lotQty'', ''minNotional'', ''tickSize'', ''maxNumOrders''}"
  shows "map_of row' k = map_of row k"
  using assms
  by (auto simp: usdfut_filter_def map_of_dict_set split: sum.splits if_splits)

lemma usdfut_filters_keeps:
  assumes "usdfut_filters fs row st = (Inr row', st')"
    and "k \<notin> {''minQty'', ''maxQty'', ''lotQty'', ''minNotional'', ''tickSize'', ''maxNumOrders''}"
  shows "map_of row' k = map_of row k"
  using assms
proof (induction fs arbitrary: row st)
  case Nil
  then show ?case by simp
next
  case (Cons flt fs)
  from Cons.prems(1) obtain r1 s1 where
    step: "usdfut_filter flt row st = (Inr r1, s1)" and rest: "usdfut_filters fs r1 s1 = (Inr row', st')"
    by (auto split: prod.splits sum.splits)
  from Cons.IH[OF rest Cons.prems(2)] usdfut_filter_keeps[OF step Cons.prems(2)]
  show ?case by simp
qed

lemma usdfut_row_passthrough:
  assumes "usdfut_row venue item aty instId row st = (Inr row', st')"
  shows "map_of row' ''underlyingType'' = Some (dict_get (scalars item) ''underlyingType'' PNone)
       \<and> map_of row' ''contractType'' = Some (dict_get (scalars item) ''contractType'' PNone)"
proof -
  from assms obtain fs row1 where
    loop: "usdfut_filters fs row1 st = (Inr row', st')"
    and u: "map_of row1 ''underlyingType'' = Some (dict_get (scalars item) ''underlyingType'' PNone)"
    and c: "map_of row1 ''contractType'' = Some (dict_get (scalars item) ''contractType'' PNone)"
    by (auto simp: usdfut_row_def Let_def map_of_dict_set split: sum.splits option.splits)
  have "map_of row' ''underlyingType'' = map_of row1 ''underlyingType''"
    by (rule usdfut_filters_keeps[OF loop]) simp
  moreover have "map_of row' ''contractType'' = map_of row1 ''contractType''"
    by (rule usdfut_filters_keeps[OF loop]) simp
  ultimately show ?thesis using u c by simp
qed

lemma usdfut_item_passthrough:
  assumes "usdfut_item venue item st = (Inr (Some row), st')"
  shows "map_of row ''underlyingType'' = Some (dict_get (scalars item) ''underlyingType'' PNone)
       \<and> (\<exists>ct. map_of (scalars item) ''contractType'' = Some ct
               \<and> map_of row ''contractType'' = Some ct)"
proof -
  from assms obtain ct aty instId row0 s0 where
    ct: "dict_item (scalars item) ''contractType'' = Inr ct"
    and row: "usdfut_row venue item aty instId row0 s0 = (Inr row, st')"
    by (auto simp: usdfut_item_def Let_def split: sum.splits option.splits prod.splits)
  from ct have "map_of (scalars item) ''contractType'' = Some ct"
    by (simp add: dict_item_Inr)
  with usdfut_row_passthrough[OF row] show ?thesis
    by (simp add: dict_get_def)
qed

lemma usdfut_symbols_rows:
  assumes "usdfut_symbols venue items rows0 st = (Inr rows, st')" and "row \<in> set rows"
  shows "row \<in> set rows0 \<or>
         (\<exists>item\<in>set items. \<exists>s s'. usdfut_item venue item s = (Inr (Some row), s'))"
  using assms
proof (induction items arbitrary: rows0 st)
  case Nil
  then show ?case by simp
next
  case (Cons item items)
  obtain r s1 where step: "usdfut_item venue item st = (r, s1)"
    by (cases "usdfut_item venue item st")
  show ?case
  proof (cases r)
    case (Inl e)
    with step Cons.prems show ?thesis by simp
  next
    case (Inr ro)
    show ?thesis
    proof (cases ro)
      case None
      with Inr step Cons.prems have "usdfut_symbols venue items rows0 s1 = (Inr rows, st')"
        by simp
      from Cons.IH[OF this Cons.prems(2)] show ?thesis by auto
    next
      case (Some new)
      with Inr step Cons.prems have "usdfut_symbols venue items (rows0 @ [new]) s1 = (Inr rows, st')"
        by simp
      from Cons.IH[OF this Cons.prems(2)] Some Inr step show ?thesis by auto
    qed
  qed
qed

text \<open>
  The records returned are, in order, those of the items that yield one: the loop appends
  the record of each item that is not skipped and drops nothing.
\<close>

lemma usdfut_symbols_rows_eq:
  assumes "usdfut_symbols venue items rows0 st = (Inr rows, st')"
  shows "rows = rows0 @ concat (map (\<lambda>item. item_records venue item st0) items)"
  using assms
proof (induction items arbitrary: rows0 st)
  case Nil
  then show ?case by simp
next
  case (Cons item items)
  obtain r s1 where step: "usdfut_item venue item st = (r, s1)"
    by (cases "usdfut_item venue item st")
  have same: "fst (usdfut_item venue item st0) = r"
    using usdfut_item_fst[of venue item st0 st] step by simp
  show ?case
  proof (cases r)
    case (Inl e)
    with step Cons.prems show ?thesis by simp
  next
    case (Inr ro)
    show ?thesis
    proof (cases ro)
      case None
      with Inr step Cons.prems have "usdfut_symbols venue items rows0 s1 = (Inr rows, st')"
        by simp
      from Cons.IH[OF this] same Inr None show ?thesis
        by (simp add: item_records_def)
    next
      case (Some new)
      with Inr step Cons.prems
      have "usdfut_symbols venue items (rows0 @ [new]) s1 = (Inr rows, st')"
        by simp
      from Cons.IH[OF this] same Inr Some show ?thesis
        by (simp add: item_records_def)
    qed
  qed
qed

section \<open>The Contract-Type Classifier and the derivative normalizer: results\<close>

text \<open>
  Claim C7. The classifier maps \<open>PERPETUAL\<close> to \<open>("perp", "PF")\<close>, maps
  \<open>CURRENT_QUARTER\<close> and \<open>NEXT_QUARTER\<close> to \<open>("future", "")\<close> and every other
  tag to \<open>(None, None)\<close>. An item so classified (its base asset, quote asset and symbol
  are read before its contract type) yields no record and the run goes on: the result of
  the derivative normalizer is the one it gives on the list without that item.
\<close>

theorem classifier_and_skip:
  "fst (normalise_contractType (PStr ''PERPETUAL'') st) = (Some ''perp'', Some ''PF'')
   \<and> fst (normalise_contractType (PStr ''CURRENT_QUARTER'') st) = (Some ''future'', Some [])
   \<and> fst (normalise_contractType (PStr ''NEXT_QUARTER'') st) = (Some ''future'', Some [])
   \<and> (ct \<notin> {PStr ''PERPETUAL'', PStr ''CURRENT_QUARTER'', PStr ''NEXT_QUARTER''} \<longrightarrow>
        fst (normalise_contractType ct st) = (None, None)
        \<and> (map_of (scalars item) ''baseAsset'' \<noteq> None
             \<and> map_of (scalars item) ''quoteAsset'' \<noteq> None
             \<and> map_of (scalars item) ''symbol'' \<noteq> None
             \<and> map_of (scalars item) ''contractType'' = Some ct \<longrightarrow>
            fst (usdfut_item venue item st) = Inr None
            \<and> fst (parse_binance_usdfut_exchange_info fn venue (pre @ item # post) st)
                = fst (parse_binance_usdfut_exchange_info fn venue (pre @ post) st)))"
proof (intro conjI impI)
  show "fst (normalise_contractType (PStr ''PERPETUAL'') st) = (Some ''perp'', Some ''PF'')"
    by (simp add: normalise_contractType_def)
  show "fst (normalise_contractType (PStr ''CURRENT_QUARTER'') st) = (Some ''future'', Some [])"
    by (simp add: normalise_contractType_def)
  show "fst (normalise_contractType (PStr ''NEXT_QUARTER'') st) = (Some ''future'', Some [])"
    by (simp add: normalise_contractType_def)
next
  assume "ct \<notin> {PStr ''PERPETUAL'', PStr ''CURRENT_QUARTER'', PStr ''NEXT_QUARTER''}"
  then show "fst (normalise_contractType ct st) = (None, None)"
    by (simp add: normalise_contractType_def)
next
  assume other: "ct \<notin> {PStr ''PERPETUAL'', PStr ''CURRENT_QUARTER'', PStr ''NEXT_QUARTER''}"
    and item: "map_of (scalars item) ''baseAsset'' \<noteq> None
             \<and> map_of (scalars item) ''quoteAsset'' \<noteq> None
             \<and> map_of (scalars item) ''symbol'' \<noteq> None
             \<and> map_of (scalars item) ''contractType'' = Some ct"
  have skip: "fst (usdfut_item venue item s) = Inr None" for s
    using other item by (intro usdfut_item_skip) auto
  show "fst (usdfut_item venue item st) = Inr None"
    by (rule skip)
  have step: "fst (usdfut_symbols venue (item # post) rows st)
      = fst (usdfut_symbols venue post rows st)" for rows
  proof -
    obtain s1 where "usdfut_item venue item st = (Inr None, s1)"
      using skip[of st] by (cases "usdfut_item venue item st") auto
    then have "fst (usdfut_symbols venue (item # post) rows st)
        = fst (usdfut_symbols venue post rows s1)"
      by simp
    also have "\<dots> = fst (usdfut_symbols venue post rows st)"
      by (rule usdfut_symbols_fst)
    finally show ?thesis .
  qed
  show "fst (parse_binance_usdfut_exchange_info fn venue (pre @ item # post) st)
      = fst (parse_binance_usdfut_exchange_info fn venue (pre @ post) st)"
  proof (cases "fst (usdfut_symbols venue pre [] st)")
    case (Inl e)
    then show ?thesis
      by (simp only: parse_usdfut_fst usdfut_symbols_fst_append sum.case)
  next
    case (Inr rows')
    then show ?thesis
      by (simp only: parse_usdfut_fst usdfut_symbols_fst_append sum.case step)
  qed
qed

text \<open>
  The theorem at the tag \<open>UNKNOWN\<close>: a document whose second item carries it yields the
  record of the first item only.
\<close>

theorem classifier_and_skip_witness:
  "PStr ''UNKNOWN'' \<notin> {PStr ''PERPETUAL'', PStr ''CURRENT_QUARTER'', PStr ''NEXT_QUARTER''}
   \<and> fst (normalise_contractType (PStr ''UNKNOWN'') initial_state) = (None, None)
   \<and> fst (parse_binance_usdfut_exchange_info ''tmp/usdfut.json'' ''binance_usdfut''
        ([\<lparr>scalars = [(''symbol'', PStr ''ETHUSDT''), (''baseAsset'', PStr ''ETH''),
                      (''quoteAsset'', PStr ''USDT''), (''contractType'', PStr ''PERPETUAL''),
                      (''marginAsset'', PStr ''USDT''), (''quotePrecision'', PInt 8),
                      (''baseAssetPrecision'', PInt 8), (''status'', PStr ''TRADING'')],
            filters = Some []\<rparr>]
         @ \<lparr>scalars = [(''symbol'', PStr ''BTCUSDT''), (''baseAsset'', PStr ''BTC''),
                       (''quoteAsset'', PStr ''USDT''), (''contractType'', PStr ''UNKNOWN'')],
             filters = None\<rparr> # []) initial_state)
     = Inr [[(''symbol'', PStr ''ETHUSDT''), (''instId'', PStr ''ETH/USDT.PF.BNC''),
             (''type'', PStr ''perp''), (''venue'', PStr ''binance_usdfut''),
             (''baseAsset'', PStr ''ETH''), (''quoteAsset'', PStr ''USDT''),
             (''marginAsset'', PStr ''USDT''), (''quoteAssetPrecision'', PInt 8),
             (''baseAssetPrecision'', PInt 8), (''status'', PStr ''TRADING''),
             (''underlyingType'', PNone), (''contractType'', PStr ''PERPETUAL'')]]"
  using classifier_and_skip[of initial_state "PStr ''UNKNOWN''"
      "\<lparr>scalars = [(''symbol'', PStr ''BTCUSDT''), (''baseAsset'', PStr ''BTC''),
                   (''quoteAsset'', PStr ''USDT''), (''contractType'', PStr ''UNKNOWN'')],
         filters = None\<rparr>"
      "''binance_usdfut''" "''tmp/usdfut.json''"
      "[\<lparr>scalars = [(''symbol'', PStr ''ETHUSDT''), (''baseAsset'', PStr ''ETH''),
                    (''quoteAsset'', PStr ''USDT''), (''contractType'', PStr ''PERPETUAL''),
                    (''marginAsset'', PStr ''USDT''), (''quotePrecision'', PInt 8),
                    (''baseAssetPrecision'', PInt 8), (''status'', PStr ''TRADING'')],
          filters = Some []\<rparr>]" "[]"]
  by (simp add: eval_defs)

text \<open>
  Claim C6. The simplifier fails with a \<open>FormatError\<close> exactly when its input does not
  split on the underscore into two parts or the date part does not have length 6; \<open>ABC\<close>
  and \<open>X_12345\<close> fail so. The failure is fatal to the run: when an item classified as a
  future carries such a symbol, the derivative normalizer returns no records but an error,
  the \<open>FormatError\<close> itself unless an earlier item has already failed.
\<close>

theorem format_error_exactly_and_fatal:
  "((\<exists>m. simplify_future_native_code s = Inl (FormatError m)) \<longleftrightarrow>
      (length (split_on CHR ''_'' s) \<noteq> 2 \<or> length (split_on CHR ''_'' s ! 1) \<noteq> 6))
   \<and> (\<exists>m. simplify_future_native_code ''ABC'' = Inl (FormatError m))
   \<and> (\<exists>m. simplify_future_native_code ''X_12345'' = Inl (FormatError m))
   \<and> (map_of (scalars item) ''baseAsset'' \<noteq> None
        \<and> map_of (scalars item) ''quoteAsset'' \<noteq> None
        \<and> map_of (scalars item) ''symbol'' = Some (PStr s)
        \<and> map_of (scalars item) ''contractType'' = Some ct
        \<and> ct \<in> {PStr ''CURRENT_QUARTER'', PStr ''NEXT_QUARTER''}
        \<and> simplify_future_native_code s = Inl (FormatError msg) \<longrightarrow>
       fst (parse_binance_usdfut_exchange_info fn venue (pre @ item # post) st)
         = (case fst (parse_binance_usdfut_exchange_info fn venue pre st) of
              Inl e \<Rightarrow> Inl e
            | Inr rows \<Rightarrow> Inl (FormatError msg)))"
proof (intro conjI impI)
  show "(\<exists>m. simplify_future_native_code s = Inl (FormatError m)) \<longleftrightarrow>
      (length (split_on CHR ''_'' s) \<noteq> 2 \<or> length (split_on CHR ''_'' s ! 1) \<noteq> 6)"
    by (rule simplify_format_error_iff)
  show "\<exists>m. simplify_future_native_code ''ABC'' = Inl (FormatError m)"
    by (simp add: simplify_future_native_code_def)
  show "\<exists>m. simplify_future_native_code ''X_12345'' = Inl (FormatError m)"
    by (simp add: simplify_future_native_code_def)
next
  assume a: "map_of (scalars item) ''baseAsset'' \<noteq> None
        \<and> map_of (scalars item) ''quoteAsset'' \<noteq> None
        \<and> map_of (scalars item) ''symbol'' = Some (PStr s)
        \<and> map_of (scalars item) ''contractType'' = Some ct
        \<and> ct \<in> {PStr ''CURRENT_QUARTER'', PStr ''NEXT_QUARTER''}
        \<and> simplify_future_native_code s = Inl (FormatError msg)"
  have fail: "fst (usdfut_item venue item s0) = Inl (FormatError msg)" for s0
    using a by (intro usdfut_item_format_error[where s = s and ct = ct]) auto
  have step: "fst (usdfut_symbols venue (item # post) rows st) = Inl (FormatError msg)" for rows
  proof -
    obtain s1 where "usdfut_item venue item st = (Inl (FormatError msg), s1)"
      using fail[of st] by (cases "usdfut_item venue item st") auto
    then show ?thesis by simp
  qed
  show "fst (parse_binance_usdfut_exchange_info fn venue (pre @ item # post) st)
         = (case fst (parse_binance_usdfut_exchange_info fn venue pre st) of
              Inl e \<Rightarrow> Inl e
            | Inr rows \<Rightarrow> Inl (FormatError msg))"
  proof (cases "fst (usdfut_symbols venue pre [] st)")
    case (Inl e)
    then show ?thesis
      by (simp only: parse_usdfut_fst usdfut_symbols_fst_append sum.case)
  next
    case (Inr rows')
    then show ?thesis
      by (simp only: parse_usdfut_fst usdfut_symbols_fst_append sum.case step)
  qed
qed

text \<open>
  The theorem at \<open>X_12345\<close>, carried by a \<open>CURRENT_QUARTER\<close> item that follows a
  perpetual one: the run ends in the \<open>FormatError\<close> and returns no record.
\<close>

theorem format_error_exactly_and_fatal_witness:
  "length (split_on CHR ''_'' ''X_12345'' ! 1) \<noteq> 6
   \<and> simplify_future_native_code ''X_12345''
       = Inl (FormatError (''expected symbol-date to have len 6, '' @ sq @ ''12345'' @ sq))
   \<and> PStr ''CURRENT_QUARTER'' \<in> {PStr ''CURRENT_QUARTER'', PStr ''NEXT_QUARTER''}
   \<and> fst (parse_binance_usdfut_exchange_info ''tmp/coinfut.json'' ''binance_coinfut''
        ([\<lparr>scalars = [(''symbol'', PStr ''ETHUSDT''), (''baseAsset'', PStr ''ETH''),
                      (''quoteAsset'', PStr ''USDT''), (''contractType'', PStr ''PERPETUAL''),
                      (''marginAsset'', PStr ''USDT''), (''quotePrecision'', PInt 8),
                      (''baseAssetPrecision'', PInt 8), (''status'', PStr ''TRADING'')],
            filters = Some []\<rparr>]
         @ \<lparr>scalars = [(''symbol'', PStr ''X_12345''), (''baseAsset'', PStr ''X''),
                       (''quoteAsset'', PStr ''USD''), (''contractType'', PStr ''CURRENT_QUARTER'')],
             filters = Some []\<rparr> # []) initial_state)
     = Inl (FormatError (''expected symbol-date to have len 6, '' @ sq @ ''12345'' @ sq))"
  using format_error_exactly_and_fatal[of "''X_12345''"
      "\<lparr>scalars = [(''symbol'', PStr ''X_12345''), (''baseAsset'', PStr ''X''),
                   (''quoteAsset'', PStr ''USD''), (''contractType'', PStr ''CURRENT_QUARTER'')],
         filters = Some []\<rparr>"
      "PStr ''CURRENT_QUARTER''"
      "''expected symbol-date to have len 6, '' @ sq @ ''12345'' @ sq"
      "''tmp/coinfut.json''" "''binance_coinfut''"
      "[\<lparr>scalars = [(''symbol'', PStr ''ETHUSDT''), (''baseAsset'', PStr ''ETH''),
                    (''quoteAsset'', PStr ''USDT''), (''contractType'', PStr ''PERPETUAL''),
                    (''marginAsset'', PStr ''USDT''), (''quotePrecision'', PInt 8),
                    (''baseAssetPrecision'', PInt 8), (''status'', PStr ''TRADING'')],
          filters = Some []\<rparr>]" "[]" initial_state]
  by (simp add: eval_defs)

text \<open>
  Claim C4, at its own example. A perpetual item with symbol \<open>BTCUSD_PERP\<close>, base
  \<open>BTC\<close> and quote \<open>USD\<close> gets the identifier \<open>BTC/USD.BNC\<close>: the first branch is
  closed to a symbol that ends with \<open>_PERP\<close>, the second tests for the ending \<open>.PERP\<close>,
  and the last branch gives the identifier without \<open>.PF\<close>.
\<close>

theorem perp_suffix_instId:
  "perp_instId (Some ''perp'') (PStr ''BTCUSD_PERP'') ''BTC/USD'' = Inr ''BTC/USD.BNC''
   \<and> fst (parse_binance_usdfut_exchange_info ''tmp/coinfut.json'' ''binance_coinfut''
     [\<lparr>scalars = [(''symbol'', PStr ''BTCUSD_PERP''), (''baseAsset'', PStr ''BTC''),
                  (''quoteAsset'', PStr ''USD''), (''contractType'', PStr ''PERPETUAL''),
                  (''marginAsset'', PStr ''BTC''), (''quotePrecision'', PInt 8),
                  (''baseAssetPrecision'', PInt 8), (''contractStatus'', PStr ''TRADING'')],
        filters = Some []\<rparr>] initial_state)
   = Inr [[(''symbol'', PStr ''BTCUSD_PERP''), (''instId'', PStr ''BTC/USD.BNC''),
           (''type'', PStr ''perp''), (''venue'', PStr ''binance_coinfut''),
           (''baseAsset'', PStr ''BTC''), (''quoteAsset'', PStr ''USD''),
           (''marginAsset'', PStr ''BTC''), (''quoteAssetPrecision'', PInt 8),
           (''baseAssetPrecision'', PInt 8), (''status'', PStr ''TRADING''),
           (''underlyingType'', PNone), (''contractType'', PStr ''PERPETUAL'')]]"
  by (simp add: eval_defs)

text \<open>
  Claim C2, on the derivative normalizer. Two items that carry the same unrecognized
  filter tag \<open>FOO\<close> make the run emit the same warning twice: the derivative normalizer
  calls \<open>logging.warn\<close> at every occurrence and never consults the warn-once set.
\<close>

theorem usdfut_warns_every_time:
  "length (filter (\<lambda>d. d = LogWarning (ignoring_msg (PStr ''FOO'')))
     (emitted (snd (parse_binance_usdfut_exchange_info ''tmp/usdfut.json'' ''binance_usdfut''
       [\<lparr>scalars = [(''symbol'', PStr ''BTCUSDT''), (''baseAsset'', PStr ''BTC''),
                    (''quoteAsset'', PStr ''USDT''), (''contractType'', PStr ''PERPETUAL''),
                    (''marginAsset'', PStr ''USDT''), (''quotePrecision'', PInt 8),
                    (''baseAssetPrecision'', PInt 8)],
          filters = Some [[(''filterType'', PStr ''FOO'')]]\<rparr>,
        \<lparr>scalars = [(''symbol'', PStr ''ETHUSDT''), (''baseAsset'', PStr ''ETH''),
                    (''quoteAsset'', PStr ''USDT''), (''contractType'', PStr ''PERPETUAL''),
                    (''marginAsset'', PStr ''USDT''), (''quotePrecision'', PInt 8),
                    (''baseAssetPrecision'', PInt 8)],
          filters = Some [[(''filterType'', PStr ''FOO'')]]\<rparr>] initial_state)))) = 2"
  by (simp add: eval_defs)

text \<open>
  Claim C9, as the code has it. The records the derivative normalizer returns are, in
  order, the records built from the items of the document that are not skipped, and the
  record built from an item always has both fields: \<open>underlyingType\<close> holds that item's
  value, or \<open>None\<close> when that item has no such field, and \<open>contractType\<close> holds that
  item's value (an item that yields a record always has one).
\<close>

theorem usdfut_passthrough_always_present:
  assumes "parse_binance_usdfut_exchange_info fn venue symbols st = (Inr rows, st')"
  shows "rows = concat (map (\<lambda>item. item_records venue item st) symbols)
     \<and> (\<forall>item\<in>set symbols. \<forall>row\<in>set (item_records venue item st).
           fst (usdfut_item venue item st) = Inr (Some row)
         \<and> map_of row ''underlyingType''
             = Some (dict_get (scalars item) ''underlyingType'' PNone)
         \<and> (\<exists>ct. map_of (scalars item) ''contractType'' = Some ct
                 \<and> map_of row ''contractType'' = Some ct))
     \<and> (\<forall>row\<in>set rows. \<exists>item\<in>set symbols.
           fst (usdfut_item venue item st) = Inr (Some row)
         \<and> map_of row ''underlyingType''
             = Some (dict_get (scalars item) ''underlyingType'' PNone)
         \<and> (\<exists>ct. map_of (scalars item) ''contractType'' = Some ct
                 \<and> map_of row ''contractType'' = Some ct))"
proof -
  from assms obtain s0 where run: "usdfut_symbols venue symbols [] s0 = (Inr rows, st')"
    by (auto simp: parse_binance_usdfut_exchange_info_def Let_def)
  have rows: "rows = concat (map (\<lambda>item. item_records venue item st) symbols)"
    using usdfut_symbols_rows_eq[OF run, of st] by simp
  have tied: "fst (usdfut_item venue item st) = Inr (Some row)
         \<and> map_of row ''underlyingType''
             = Some (dict_get (scalars item) ''underlyingType'' PNone)
         \<and> (\<exists>ct. map_of (scalars item) ''contractType'' = Some ct
                 \<and> map_of row ''contractType'' = Some ct)"
    if "row \<in> set (item_records venue item st)" for item row
  proof -
    from that have r: "fst (usdfut_item venue item st) = Inr (Some row)"
      by (auto simp: item_records_def split: sum.splits option.splits)
    then obtain s1 where "usdfut_item venue item st = (Inr (Some row), s1)"
      by (cases "usdfut_item venue item st") auto
    from usdfut_item_passthrough[OF this] r show ?thesis by simp
  qed
  have all_items: "\<forall>item\<in>set symbols. \<forall>row\<in>set (item_records venue item st).
           fst (usdfut_item venue item st) = Inr (Some row)
         \<and> map_of row ''underlyingType''
             = Some (dict_get (scalars item) ''underlyingType'' PNone)
         \<and> (\<exists>ct. map_of (scalars item) ''contractType'' = Some ct
                 \<and> map_of row ''contractType'' = Some ct)"
    using tied by blast
  have all_rows: "\<forall>row\<in>set rows. \<exists>item\<in>set symbols.
           fst (usdfut_item venue item st) = Inr (Some row)
         \<and> map_of row ''underlyingType''
             = Some (dict_get (scalars item) ''underlyingType'' PNone)
         \<and> (\<exists>ct. map_of (scalars item) ''contractType'' = Some ct
                 \<and> map_of row ''contractType'' = Some ct)"
  proof
    fix row
    assume "row \<in> set rows"
    with rows obtain item where "item \<in> set symbols" "row \<in> set (item_records venue item st)"
      by auto
    with tied show "\<exists>item\<in>set symbols.
           fst (usdfut_item venue item st) = Inr (Some row)
         \<and> map_of row ''underlyingType''
             = Some (dict_get (scalars item) ''underlyingType'' PNone)
         \<and> (\<exists>ct. map_of (scalars item) ''contractType'' = Some ct
                 \<and> map_of row ''contractType'' = Some ct)"
      by blast
  qed
  from rows all_items all_rows show ?thesis
    by (intro conjI)
qed

text \<open>
  Claim C9 as stated fails: an item without the field \<open>underlyingType\<close> yields a record
  that has the field, with the value \<open>None\<close>.
\<close>

theorem usdfut_passthrough_counterexample:
  "map_of [(''symbol'', PStr ''BTCUSDT''), (''baseAsset'', PStr ''BTC''),
           (''quoteAsset'', PStr ''USDT''), (''contractType'', PStr ''PERPETUAL''),
           (''marginAsset'', PStr ''USDT''), (''quotePrecision'', PInt 8),
           (''baseAssetPrecision'', PInt 8), (''status'', PStr ''TRADING'')] ''underlyingType'' = None
   \<and> fst (parse_binance_usdfut_exchange_info ''tmp/usdfut.json'' ''binance_usdfut''
     [\<lparr>scalars = [(''symbol'', PStr ''BTCUSDT''), (''baseAsset'', PStr ''BTC''),
                  (''quoteAsset'', PStr ''USDT''), (''contractType'', PStr ''PERPETUAL''),
                  (''marginAsset'', PStr ''USDT''), (''quotePrecision'', PInt 8),
                  (''baseAssetPrecision'', PInt 8), (''status'', PStr ''TRADING'')],
        filters = Some []\<rparr>] initial_state)
   = Inr [[(''symbol'', PStr ''BTCUSDT''), (''instId'', PStr ''BTC/USDT.PF.BNC''),
           (''type'', PStr ''perp''), (''venue'', PStr ''binance_usdfut''),
           (''baseAsset'', PStr ''BTC''), (''quoteAsset'', PStr ''USDT''),
           (''marginAsset'', PStr ''USDT''), (''quoteAssetPrecision'', PInt 8),
           (''baseAssetPrecision'', PInt 8), (''status'', PStr ''TRADING''),
           (''underlyingType'', PNone), (''contractType'', PStr ''PERPETUAL'')]]"
  by (simp add: eval_defs)

text \<open>
  The theorem at a document of two perpetuals, the first with \<open>underlyingType\<close> and the
  second without: the two records come in the order of the items, and each has the value
  of its own item, \<open>COIN\<close> for the first and \<open>None\<close> for the second.
\<close>

theorem usdfut_passthrough_always_present_witness:
  "fst (parse_binance_usdfut_exchange_info ''tmp/coinfut.json'' ''binance_coinfut''
     [example_coin_perp, example_usdt_perp] initial_state)
   = Inr [[(''symbol'', PStr ''ETHUSD''), (''instId'', PStr ''ETH/USD.PF.BNC''),
           (''type'', PStr ''perp''), (''venue'', PStr ''binance_coinfut''),
           (''baseAsset'', PStr ''ETH''), (''quoteAsset'', PStr ''USD''),
           (''marginAsset'', PStr ''ETH''), (''quoteAssetPrecision'', PInt 8),
           (''baseAssetPrecision'', PInt 8), (''status'', PStr ''unknown''),
           (''underlyingType'', PStr ''COIN''), (''contractType'', PStr ''PERPETUAL'')],
          [(''symbol'', PStr ''BTCUSDT''), (''instId'', PStr ''BTC/USDT.PF.BNC''),
           (''type'', PStr ''perp''), (''venue'', PStr ''binance_coinfut''),
           (''baseAsset'', PStr ''BTC''), (''quoteAsset'', PStr ''USDT''),
           (''marginAsset'', PStr ''USDT''), (''quoteAssetPrecision'', PInt 8),
           (''baseAssetPrecision'', PInt 8), (''status'', PStr ''TRADING''),
           (''underlyingType'', PNone), (''contractType'', PStr ''PERPETUAL'')]]
   \<and> item_records ''binance_coinfut'' example_coin_perp initial_state
     = [[(''symbol'', PStr ''ETHUSD''), (''instId'', PStr ''ETH/USD.PF.BNC''),
           (''type'', PStr ''perp''), (''venue'', PStr ''binance_coinfut''),
           (''baseAsset'', PStr ''ETH''), (''quoteAsset'', PStr ''USD''),
           (''marginAsset'', PStr ''ETH''), (''quoteAssetPrecision'', PInt 8),
           (''baseAssetPrecision'', PInt 8), (''status'', PStr ''unknown''),
           (''underlyingType'', PStr ''COIN''), (''contractType'', PStr ''PERPETUAL'')]]
   \<and> item_records ''binance_coinfut'' example_usdt_perp initial_state
     = [[(''symbol'', PStr ''BTCUSDT''), (''instId'', PStr ''BTC/USDT.PF.BNC''),
           (''type'', PStr ''perp''), (''venue'', PStr ''binance_coinfut''),
           (''baseAsset'', PStr ''BTC''), (''quoteAsset'', PStr ''USDT''),
           (''marginAsset'', PStr ''USDT''), (''quoteAssetPrecision'', PInt 8),
           (''baseAssetPrecision'', PInt 8), (''status'', PStr ''TRADING''),
           (''underlyingType'', PNone), (''contractType'', PStr ''PERPETUAL'')]]
   \<and> dict_get (scalars example_coin_perp) ''underlyingType'' PNone = PStr ''COIN''
   \<and> dict_get (scalars example_usdt_perp) ''underlyingType'' PNone = PNone"
  using usdfut_passthrough_always_present[of "''tmp/coinfut.json''" "''binance_coinfut''"
     "[example_coin_perp, example_usdt_perp]" initial_state
     "[[(''symbol'', PStr ''ETHUSD''), (''instId'', PStr ''ETH/USD.PF.BNC''),
           (''type'', PStr ''perp''), (''venue'', PStr ''binance_coinfut''),
           (''baseAsset'', PStr ''ETH''), (''quoteAsset'', PStr ''USD''),
           (''marginAsset'', PStr ''ETH''), (''quoteAssetPrecision'', PInt 8),
           (''baseAssetPrecision'', PInt 8), (''status'', PStr ''unknown''),
           (''underlyingType'', PStr ''COIN''), (''contractType'', PStr ''PERPETUAL'')],
          [(''symbol'', PStr ''BTCUSDT''), (''instId'', PStr ''BTC/USDT.PF.BNC''),
           (''type'', PStr ''perp''), (''venue'', PStr ''binance_coinfut''),
           (''baseAsset'', PStr ''BTC''), (''quoteAsset'', PStr ''USDT''),
           (''marginAsset'', PStr ''USDT''), (''quoteAssetPrecision'', PInt 8),
           (''baseAssetPrecision'', PInt 8), (''status'', PStr ''TRADING''),
           (''underlyingType'', PNone), (''contractType'', PStr ''PERPETUAL'')]]"
     "snd (parse_binance_usdfut_exchange_info ''tmp/coinfut.json'' ''binance_coinfut''
        [example_coin_perp, example_usdt_perp] initial_state)"]
  by (simp add: eval_defs item_records_def example_coin_perp_def example_usdt_perp_def)

section \<open>The spot normalizer: results\<close>

lemma mset_three_cases:
  assumes "mset fs = {#a, b, c#}"
  shows "fs \<in> {[a, b, c], [a, c, b], [b, a, c], [b, c, a], [c, a, b], [c, b, a]}"
proof -
  from assms have "length fs = 3"
    using mset_eq_length[of fs "[a, b, c]"] by simp
  then obtain x y z where fs: "fs = [x, y, z]"
    by (auto simp: length_Suc_conv eval_nat_numeral)
  with assms have "{#x, y, z#} = {#a, b, c#}" by simp
  then show ?thesis
    unfolding fs by (auto simp: add_eq_conv_ex)
qed

lemma spot_filter_lot:
  assumes "map_of flt ''filterType'' = Some (PStr ''LOT_SIZE'')"
    and "map_of flt ''minQty'' = Some a" "map_of flt ''maxQty'' = Some b"
    and "map_of flt ''stepSize'' = Some c"
  shows "spot_filter flt row st =
    (Inr (dict_set (dict_set (dict_set row ''minQty'' a) ''maxQty'' b) ''lotQty'' c), st)"
  using assms by (simp add: spot_filter_def dict_item_def)

lemma spot_filter_min_notional:
  assumes "map_of flt ''filterType'' = Some (PStr ''MIN_NOTIONAL'')"
    and "map_of flt ''minNotional'' = Some v"
  shows "spot_filter flt row st = (Inr (dict_set row ''minNotional'' v), st)"
  using assms by (simp add: spot_filter_def dict_item_def)

lemma spot_filter_price:
  assumes "map_of flt ''filterType'' = Some (PStr ''PRICE_FILTER'')"
    and "map_of flt ''tickSize'' = Some v"
  shows "spot_filter flt row st = (Inr (dict_set row ''tickSize'' v), st)"
  using assms by (simp add: spot_filter_def dict_item_def)

lemma spot_three_filters:
  assumes "mset fs = {#lot, mn, pf#}"
    and "map_of lot ''filterType'' = Some (PStr ''LOT_SIZE'')"
    and "map_of lot ''minQty'' = Some minQty" "map_of lot ''maxQty'' = Some maxQty"
    and "map_of lot ''stepSize'' = Some stepSize"
    and "map_of mn ''filterType'' = Some (PStr ''MIN_NOTIONAL'')"
    and "map_of mn ''minNotional'' = Some minNotional"
    and "map_of pf ''filterType'' = Some (PStr ''PRICE_FILTER'')"
    and "map_of pf ''tickSize'' = Some tickSize"
  shows "\<exists>row'. spot_filters fs row st = (Inr row', st)
     \<and> map_of row' = (map_of row)(''minQty'' \<mapsto> minQty, ''maxQty'' \<mapsto> maxQty,
          ''lotQty'' \<mapsto> stepSize, ''minNotional'' \<mapsto> minNotional, ''tickSize'' \<mapsto> tickSize)"
proof -
  note steps = spot_filter_lot[OF assms(2-5)] spot_filter_min_notional[OF assms(6,7)]
    spot_filter_price[OF assms(8,9)]
  from mset_three_cases[OF assms(1)]
  consider "fs = [lot, mn, pf]" | "fs = [lot, pf, mn]" | "fs = [mn, lot, pf]"
    | "fs = [mn, pf, lot]" | "fs = [pf, lot, mn]" | "fs = [pf, mn, lot]"
    by auto
  then show ?thesis
  proof cases
    case 1 then show ?thesis by (auto simp: steps map_of_dict_set fun_upd_def)
  next
    case 2 then show ?thesis by (auto simp: steps map_of_dict_set fun_upd_def)
  next
    case 3 then show ?thesis by (auto simp: steps map_of_dict_set fun_upd_def)
  next
    case 4 then show ?thesis by (auto simp: steps map_of_dict_set fun_upd_def)
  next
    case 5 then show ?thesis by (auto simp: steps map_of_dict_set fun_upd_def)
  next
    case 6 then show ?thesis by (auto simp: steps map_of_dict_set fun_upd_def)
  qed
qed



text \<open>
  Claim C8. A spot document with one symbol whose filter list consists of a \<open>LOT_SIZE\<close>
  entry (with \<open>minQty\<close>, \<open>maxQty\<close>, \<open>stepSize\<close>), a \<open>MIN_NOTIONAL\<close> entry (with
  \<open>minNotional\<close>) and a \<open>PRICE_FILTER\<close> entry (with \<open>tickSize\<close>), in any order,
  yields exactly one record: its type is \<open>coinpair\<close>, its \<open>instId\<close> is base, slash,
  quote and the suffix \<open>.BNC\<close>, and \<open>minQty\<close>, \<open>maxQty\<close>, \<open>lotQty\<close> (the step
  size), \<open>minNotional\<close> and \<open>tickSize\<close> hold the filters' values; the symbol, venue,
  assets, precisions and status are copied from the item.
\<close>

theorem spot_single_symbol:
  assumes "map_of (scalars item) ''symbol'' = Some symbol"
    and "map_of (scalars item) ''baseAsset'' = Some baseAsset"
    and "map_of (scalars item) ''quoteAsset'' = Some quoteAsset"
    and "map_of (scalars item) ''quoteAssetPrecision'' = Some quotePrec"
    and "map_of (scalars item) ''baseAssetPrecision'' = Some basePrec"
    and "map_of (scalars item) ''status'' = Some status"
    and "filters item = Some fs"
    and "mset fs = {#lot, mn, pf#}"
    and "map_of lot ''filterType'' = Some (PStr ''LOT_SIZE'')"
    and "map_of lot ''minQty'' = Some minQty" "map_of lot ''maxQty'' = Some maxQty"
    and "map_of lot ''stepSize'' = Some stepSize"
    and "map_of mn ''filterType'' = Some (PStr ''MIN_NOTIONAL'')"
    and "map_of mn ''minNotional'' = Some minNotional"
    and "map_of pf ''filterType'' = Some (PStr ''PRICE_FILTER'')"
    and "map_of pf ''tickSize'' = Some tickSize"
  shows "\<exists>row. fst (parse_binance_spot_exchange_info fn [item] st) = Inr [row]
     \<and> map_of row ''type'' = Some (PStr ''coinpair'')
     \<and> map_of row ''instId'' = Some (PStr (py_str baseAsset @ ''/'' @ py_str quoteAsset @ ''.BNC''))
     \<and> map_of row ''minQty'' = Some minQty
     \<and> map_of row ''maxQty'' = Some maxQty
     \<and> map_of row ''lotQty'' = Some stepSize
     \<and> map_of row ''minNotional'' = Some minNotional
     \<and> map_of row ''tickSize'' = Some tickSize
     \<and> map_of row ''symbol'' = Some symbol
     \<and> map_of row ''venue'' = Some (PStr ''binance'')
     \<and> map_of row ''baseAsset'' = Some baseAsset
     \<and> map_of row ''quoteAsset'' = Some quoteAsset
     \<and> map_of row ''quoteAssetPrecision'' = Some quotePrec
     \<and> map_of row ''baseAssetPrecision'' = Some basePrec
     \<and> map_of row ''status'' = Some status"
proof -
  define row0 where "row0 =
    [(''symbol'', symbol),
     (''instId'', PStr (py_str baseAsset @ ''/'' @ py_str quoteAsset @ ''.BNC'')),
     (''type'', PStr ''coinpair''), (''venue'', PStr ''binance''),
     (''baseAsset'', baseAsset), (''quoteAsset'', quoteAsset),
     (''quoteAssetPrecision'', quotePrec), (''baseAssetPrecision'', basePrec),
     (''status'', status)]"
  have item: "spot_item item s = spot_filters fs row0 s" for s
    using assms(1-7) by (simp add: spot_item_def dict_item_def Let_def row0_def)
  define st0 where "st0 = emit (LogInfoIgnoring spot_filters_to_ignore)
    (emit (LogInfo (''file has '' @ nat_digits (length [item]) @ '' symbols''))
      (emit (LogInfo (''reading file '' @ sq @ fn @ sq)) st))"
  from spot_three_filters[OF assms(8-16), of row0 st0] obtain row where
    loop: "spot_filters fs row0 st0 = (Inr row, st0)"
    and m: "map_of row = (map_of row0)(''minQty'' \<mapsto> minQty, ''maxQty'' \<mapsto> maxQty,
          ''lotQty'' \<mapsto> stepSize, ''minNotional'' \<mapsto> minNotional, ''tickSize'' \<mapsto> tickSize)"
    by blast
  have "parse_binance_spot_exchange_info fn [item] st = spot_symbols [item] [] st0"
    by (simp add: parse_binance_spot_exchange_info_def Let_def st0_def)
  also have "\<dots> = (Inr [row], st0)"
    by (simp add: item loop)
  finally have res: "fst (parse_binance_spot_exchange_info fn [item] st) = Inr [row]"
    by simp
  show ?thesis
    by (rule exI[of _ row]) (simp add: res m row0_def)
qed

text \<open>
  The theorem at a \<open>BTCUSDT\<close> item whose filters come in the order \<open>PRICE_FILTER\<close>,
  \<open>LOT_SIZE\<close>, \<open>MIN_NOTIONAL\<close>.
\<close>

theorem spot_single_symbol_witness:
  "mset [[(''filterType'', PStr ''PRICE_FILTER''), (''minPrice'', PStr ''0.01''),
          (''tickSize'', PStr ''0.01'')],
         [(''filterType'', PStr ''LOT_SIZE''), (''minQty'', PStr ''0.00001''),
          (''maxQty'', PStr ''9000''), (''stepSize'', PStr ''0.00001'')],
         [(''filterType'', PStr ''MIN_NOTIONAL''), (''minNotional'', PStr ''10'')]]
    = {#[(''filterType'', PStr ''LOT_SIZE''), (''minQty'', PStr ''0.00001''),
          (''maxQty'', PStr ''9000''), (''stepSize'', PStr ''0.00001'')],
        [(''filterType'', PStr ''MIN_NOTIONAL''), (''minNotional'', PStr ''10'')],
        [(''filterType'', PStr ''PRICE_FILTER''), (''minPrice'', PStr ''0.01''),
          (''tickSize'', PStr ''0.01'')]#}
   \<and> fst (parse_binance_spot_exchange_info ''tmp/spot.json''
      [\<lparr>scalars = [(''symbol'', PStr ''BTCUSDT''), (''status'', PStr ''TRADING''),
                   (''baseAsset'', PStr ''BTC''), (''baseAssetPrecision'', PInt 8),
                   (''quoteAsset'', PStr ''USDT''), (''quoteAssetPrecision'', PInt 8)],
         filters = Some
           [[(''filterType'', PStr ''PRICE_FILTER''), (''minPrice'', PStr ''0.01''),
             (''tickSize'', PStr ''0.01'')],
            [(''filterType'', PStr ''LOT_SIZE''), (''minQty'', PStr ''0.00001''),
             (''maxQty'', PStr ''9000''), (''stepSize'', PStr ''0.00001'')],
            [(''filterType'', PStr ''MIN_NOTIONAL''), (''minNotional'', PStr ''10'')]]\<rparr>]
      initial_state)
    = Inr [[(''symbol'', PStr ''BTCUSDT''), (''instId'', PStr ''BTC/USDT.BNC''),
            (''type'', PStr ''coinpair''), (''venue'', PStr ''binance''),
            (''baseAsset'', PStr ''BTC''), (''quoteAsset'', PStr ''USDT''),
            (''quoteAssetPrecision'', PInt 8), (''baseAssetPrecision'', PInt 8),
            (''status'', PStr ''TRADING''), (''tickSize'', PStr ''0.01''),
            (''minQty'', PStr ''0.00001''), (''maxQty'', PStr ''9000''),
            (''lotQty'', PStr ''0.00001''), (''minNotional'', PStr ''10'')]]"
  using spot_single_symbol[where
      item = "\<lparr>scalars = [(''symbol'', PStr ''BTCUSDT''), (''status'', PStr ''TRADING''),
                   (''baseAsset'', PStr ''BTC''), (''baseAssetPrecision'', PInt 8),
                   (''quoteAsset'', PStr ''USDT''), (''quoteAssetPrecision'', PInt 8)],
         filters = Some
           [[(''filterType'', PStr ''PRICE_FILTER''), (''minPrice'', PStr ''0.01''),
             (''tickSize'', PStr ''0.01'')],
            [(''filterType'', PStr ''LOT_SIZE''), (''minQty'', PStr ''0.00001''),
             (''maxQty'', PStr ''9000''), (''stepSize'', PStr ''0.00001'')],
            [(''filterType'', PStr ''MIN_NOTIONAL''), (''minNotional'', PStr ''10'')]]\<rparr>"
      and fs = "[[(''filterType'', PStr ''PRICE_FILTER''), (''minPrice'', PStr ''0.01''),
             (''tickSize'', PStr ''0.01'')],
            [(''filterType'', PStr ''LOT_SIZE''), (''minQty'', PStr ''0.00001''),
             (''maxQty'', PStr ''9000''), (''stepSize'', PStr ''0.00001'')],
            [(''filterType'', PStr ''MIN_NOTIONAL''), (''minNotional'', PStr ''10'')]]"
      and lot = "[(''filterType'', PStr ''LOT_SIZE''), (''minQty'', PStr ''0.00001''),
             (''maxQty'', PStr ''9000''), (''stepSize'', PStr ''0.00001'')]"
      and mn = "[(''filterType'', PStr ''MIN_NOTIONAL''), (''minNotional'', PStr ''10'')]"
      and pf = "[(''filterType'', PStr ''PRICE_FILTER''), (''minPrice'', PStr ''0.01''),
             (''tickSize'', PStr ''0.01'')]"
      and symbol = "PStr ''BTCUSDT''" and baseAsset = "PStr ''BTC''"
      and quoteAsset = "PStr ''USDT''" and quotePrec = "PInt 8" and basePrec = "PInt 8"
      and status = "PStr ''TRADING''" and minQty = "PStr ''0.00001''"
      and maxQty = "PStr ''9000''" and stepSize = "PStr ''0.00001''"
      and minNotional = "PStr ''10''" and tickSize = "PStr ''0.01''"
      and fn = "''tmp/spot.json''" and st = initial_state]
  by (simp add: eval_defs)

section \<open>The spot normalizer: warn-once diagnostics\<close>

lemma warn_once_inv_initial: "warn_once_inv initial_state"
  by (simp add: warn_once_inv_def warning_count_def initial_state_def)

lemma warn_once_inv_log_warn_once: "warn_once_inv st \<Longrightarrow> warn_once_inv (log_warn_once msg st)"
  by (auto simp: warn_once_inv_def warning_count_def log_warn_once_def emit_def)

lemma warn_once_inv_emit_info: "warn_once_inv st \<Longrightarrow> warn_once_inv (emit (LogInfo m) st)"
  by (auto simp: warn_once_inv_def warning_count_def emit_def)

lemma warn_once_inv_emit_ignoring:
  "warn_once_inv st \<Longrightarrow> warn_once_inv (emit (LogInfoIgnoring S) st)"
  by (auto simp: warn_once_inv_def warning_count_def emit_def)

lemma log_warn_once_mono:
  "m \<in> log_warn_once_msgs st \<Longrightarrow> m \<in> log_warn_once_msgs (log_warn_once msg st)"
  by (auto simp: log_warn_once_def emit_def)

lemma log_warn_once_member: "msg \<in> log_warn_once_msgs (log_warn_once msg st)"
  by (auto simp: log_warn_once_def emit_def)

lemma spot_filter_cases:
  "snd (spot_filter flt row st) = st \<or>
   (\<exists>t. map_of flt ''filterType'' = Some t
        \<and> snd (spot_filter flt row st) = log_warn_once (ignoring_msg t) st)"
  by (auto simp: spot_filter_def dict_item_def split: option.splits)

lemma spot_filter_inv: "warn_once_inv st \<Longrightarrow> warn_once_inv (snd (spot_filter flt row st))"
  using spot_filter_cases[of flt row st] by (auto intro: warn_once_inv_log_warn_once)

lemma spot_filter_mono:
  assumes "m \<in> log_warn_once_msgs st"
  shows "m \<in> log_warn_once_msgs (snd (spot_filter flt row st))"
  using spot_filter_cases[of flt row st]
proof (elim disjE exE conjE)
  assume "snd (spot_filter flt row st) = st"
  with assms show ?thesis by simp
next
  fix t
  assume "snd (spot_filter flt row st) = log_warn_once (ignoring_msg t) st"
  with log_warn_once_mono[OF assms] show ?thesis by simp
qed

lemma spot_filter_unrecognized:
  assumes "map_of flt ''filterType'' = Some t"
    and "t \<notin> {PStr ''LOT_SIZE'', PStr ''MIN_NOTIONAL'', PStr ''PRICE_FILTER'', PStr ''MAX_NUM_ORDERS''}"
    and "\<not> in_ignore_set t spot_filters_to_ignore"
  shows "spot_filter flt row st = (Inr row, log_warn_once (ignoring_msg t) st)"
  using assms by (simp add: spot_filter_def dict_item_def)

lemma spot_filters_inv: "warn_once_inv st \<Longrightarrow> warn_once_inv (snd (spot_filters fs row st))"
proof (induction fs arbitrary: row st)
  case Nil
  then show ?case by simp
next
  case (Cons flt fs)
  obtain r s1 where step: "spot_filter flt row st = (r, s1)" by (cases "spot_filter flt row st")
  with spot_filter_inv[OF Cons.prems, of flt row] have "warn_once_inv s1" by simp
  with step Cons.IH show ?case by (cases r) auto
qed

lemma spot_filters_mono:
  "m \<in> log_warn_once_msgs st \<Longrightarrow> m \<in> log_warn_once_msgs (snd (spot_filters fs row st))"
proof (induction fs arbitrary: row st)
  case Nil
  then show ?case by simp
next
  case (Cons flt fs)
  obtain r s1 where step: "spot_filter flt row st = (r, s1)" by (cases "spot_filter flt row st")
  with spot_filter_mono[OF Cons.prems, of flt row] have s1: "m \<in> log_warn_once_msgs s1"
    by simp
  show ?case
  proof (cases r)
    case (Inl e)
    with step s1 show ?thesis by simp
  next
    case (Inr row1)
    with step Cons.IH[OF s1, of row1] show ?thesis by simp
  qed
qed

lemma spot_filters_unrecognized:
  assumes "spot_filters fs row st = (Inr row', st')" and "flt \<in> set fs"
    and "map_of flt ''filterType'' = Some t"
    and "t \<notin> {PStr ''LOT_SIZE'', PStr ''MIN_NOTIONAL'', PStr ''PRICE_FILTER'', PStr ''MAX_NUM_ORDERS''}"
    and "\<not> in_ignore_set t spot_filters_to_ignore"
  shows "ignoring_msg t \<in> log_warn_once_msgs st'"
  using assms(1,2)
proof (induction fs arbitrary: row st)
  case Nil
  then show ?case by simp
next
  case (Cons f fs)
  from Cons.prems(1) obtain r1 s1 where
    step: "spot_filter f row st = (Inr r1, s1)" and rest: "spot_filters fs r1 s1 = (Inr row', st')"
    by (auto split: prod.splits sum.splits)
  show ?case
  proof (cases "flt = f")
    case True
    with step spot_filter_unrecognized[OF assms(3-5), of row st]
    have "ignoring_msg t \<in> log_warn_once_msgs s1"
      using log_warn_once_member by auto
    from spot_filters_mono[OF this, of fs r1] rest show ?thesis by simp
  next
    case False
    with Cons.prems(2) have "flt \<in> set fs" by simp
    from Cons.IH[OF rest this] show ?thesis .
  qed
qed

lemma spot_item_cases:
  "(\<exists>e. spot_item item st = (Inl e, st)) \<or>
   (\<exists>fs row. filters item = Some fs \<and> spot_item item st = spot_filters fs row st)"
  by (auto simp: spot_item_def Let_def split: sum.splits option.splits)

lemma spot_item_inv: "warn_once_inv st \<Longrightarrow> warn_once_inv (snd (spot_item item st))"
  using spot_item_cases[of item st] spot_filters_inv by auto

lemma spot_item_mono:
  assumes "m \<in> log_warn_once_msgs st"
  shows "m \<in> log_warn_once_msgs (snd (spot_item item st))"
  using spot_item_cases[of item st]
proof (elim disjE exE conjE)
  fix e assume "spot_item item st = (Inl e, st)"
  with assms show ?thesis by simp
next
  fix fs row assume "spot_item item st = spot_filters fs row st"
  with spot_filters_mono[OF assms, of fs row] show ?thesis by simp
qed

lemma spot_symbols_inv: "warn_once_inv st \<Longrightarrow> warn_once_inv (snd (spot_symbols items rows st))"
proof (induction items arbitrary: rows st)
  case Nil
  then show ?case by simp
next
  case (Cons item items)
  obtain r s1 where step: "spot_item item st = (r, s1)" by (cases "spot_item item st")
  with spot_item_inv[OF Cons.prems, of item] have "warn_once_inv s1" by simp
  with step Cons.IH show ?case by (cases r) auto
qed

lemma spot_symbols_mono:
  "m \<in> log_warn_once_msgs st \<Longrightarrow> m \<in> log_warn_once_msgs (snd (spot_symbols items rows st))"
proof (induction items arbitrary: rows st)
  case Nil
  then show ?case by simp
next
  case (Cons item items)
  obtain r s1 where step: "spot_item item st = (r, s1)" by (cases "spot_item item st")
  with spot_item_mono[OF Cons.prems, of item] have s1: "m \<in> log_warn_once_msgs s1"
    by simp
  show ?case
  proof (cases r)
    case (Inl e)
    with step s1 show ?thesis by simp
  next
    case (Inr row1)
    with step Cons.IH[OF s1, of "rows @ [row1]"] show ?thesis by simp
  qed
qed

lemma spot_symbols_unrecognized:
  assumes "spot_symbols items rows st = (Inr rows', st')" and "item \<in> set items"
    and "filters item = Some fs" and "flt \<in> set fs"
    and "map_of flt ''filterType'' = Some t"
    and "t \<notin> {PStr ''LOT_SIZE'', PStr ''MIN_NOTIONAL'', PStr ''PRICE_FILTER'', PStr ''MAX_NUM_ORDERS''}"
    and "\<not> in_ignore_set t spot_filters_to_ignore"
  shows "ignoring_msg t \<in> log_warn_once_msgs st'"
  using assms(1,2)
proof (induction items arbitrary: rows st)
  case Nil
  then show ?case by simp
next
  case (Cons i items)
  from Cons.prems(1) obtain r1 s1 where
    step: "spot_item i st = (Inr r1, s1)"
    and rest: "spot_symbols items (rows @ [r1]) s1 = (Inr rows', st')"
    by (auto split: prod.splits sum.splits)
  show ?case
  proof (cases "item = i")
    case True
    with step assms(3) spot_item_cases[of i st] obtain row where
      "spot_filters fs row st = (Inr r1, s1)" by auto
    from spot_filters_unrecognized[OF this assms(4-7)]
    have "ignoring_msg t \<in> log_warn_once_msgs s1" .
    from spot_symbols_mono[OF this, of items "rows @ [r1]"] rest show ?thesis by simp
  next
    case False
    with Cons.prems(2) have "item \<in> set items" by simp
    from Cons.IH[OF rest this] show ?thesis .
  qed
qed

text \<open>
  The spot normalizer keeps the warn-once discipline: started in a state where the
  warn-once set holds exactly the warnings emitted so far, each once (as at the start of
  the process), a run that completes has emitted the warning of every unrecognized filter
  tag it met exactly once, however many records carry the tag.
\<close>

lemma spot_warn_once:
  assumes "warn_once_inv st"
    and "parse_binance_spot_exchange_info fn symbols st = (Inr rows, st')"
    and "item \<in> set symbols" and "filters item = Some fs" and "flt \<in> set fs"
    and "map_of flt ''filterType'' = Some t"
    and "t \<notin> {PStr ''LOT_SIZE'', PStr ''MIN_NOTIONAL'', PStr ''PRICE_FILTER'', PStr ''MAX_NUM_ORDERS''}"
    and "\<not> in_ignore_set t spot_filters_to_ignore"
  shows "warning_count (ignoring_msg t) st' = 1"
proof -
  define st0 where "st0 = emit (LogInfoIgnoring spot_filters_to_ignore)
    (emit (LogInfo (''file has '' @ nat_digits (length symbols) @ '' symbols''))
      (emit (LogInfo (''reading file '' @ sq @ fn @ sq)) st))"
  have inv0: "warn_once_inv st0"
    unfolding st0_def
    by (intro warn_once_inv_emit_ignoring warn_once_inv_emit_info assms(1))
  have run: "spot_symbols symbols [] st0 = (Inr rows, st')"
    using assms(2) by (simp add: parse_binance_spot_exchange_info_def Let_def st0_def)
  from spot_symbols_inv[OF inv0, of symbols "[]"] run have "warn_once_inv st'" by simp
  moreover from spot_symbols_unrecognized[OF run assms(3-8)]
  have "ignoring_msg t \<in> log_warn_once_msgs st'" .
  ultimately show ?thesis by (simp add: warn_once_inv_def)
qed

lemma spot_warn_at_most_once:
  "warn_once_inv st \<Longrightarrow>
   warning_count msg (snd (parse_binance_spot_exchange_info fn symbols st)) \<le> 1"
proof -
  assume inv: "warn_once_inv st"
  have "warn_once_inv (snd (parse_binance_spot_exchange_info fn symbols st))"
    unfolding parse_binance_spot_exchange_info_def Let_def
    by (intro spot_symbols_inv warn_once_inv_emit_ignoring warn_once_inv_emit_info inv)
  then show ?thesis by (simp add: warn_once_inv_def)
qed

section \<open>Column Discovery: results\<close>

lemma first_seen_append: "first_seen acc (xs @ ys) = first_seen (first_seen acc xs) ys"
  by (induction xs arbitrary: acc) auto

lemma first_seen_distinct: "distinct acc \<Longrightarrow> distinct (first_seen acc ks)"
  by (induction ks arbitrary: acc) auto

lemma first_seen_set: "set (first_seen acc ks) = set acc \<union> set ks"
  by (induction ks arbitrary: acc) auto

lemma first_seen_prefix: "take (length acc) (first_seen acc ks) = acc"
proof (induction ks arbitrary: acc)
  case Nil
  then show ?case by simp
next
  case (Cons k ks)
  show ?case
  proof (cases "k \<in> set acc")
    case True
    with Cons.IH[of acc] show ?thesis by simp
  next
    case False
    have "take (length acc) (first_seen (acc @ [k]) ks)
        = take (length acc) (take (length (acc @ [k])) (first_seen (acc @ [k]) ks))"
      by (simp add: min_def)
    also have "\<dots> = take (length acc) (acc @ [k])"
      by (simp only: Cons.IH)
    finally show ?thesis using False by simp
  qed
qed

lemma fold_header_step:
  "fold header_step ks (hc, set hc) = (first_seen hc ks, set (first_seen hc ks))"
proof (induction ks arbitrary: hc)
  case Nil
  then show ?case by simp
next
  case (Cons k ks)
  show ?case
  proof (cases "k \<in> set hc")
    case True
    with Cons.IH[of hc] show ?thesis by (simp add: header_step_def)
  next
    case False
    have "header_step k (hc, set hc) = (hc @ [k], set (hc @ [k]))"
      using False by (simp add: header_step_def)
    with Cons.IH[of "hc @ [k]"] False show ?thesis by simp
  qed
qed

lemma fold_rows_header_step:
  "fold (\<lambda>row. fold header_step (dict_keys row)) rows (hc, set hc) =
     (first_seen hc (concat (map dict_keys rows)),
      set (first_seen hc (concat (map dict_keys rows))))"
  by (induction rows arbitrary: hc) (simp_all add: fold_header_step first_seen_append)

text \<open>
  With a key field of one character, as in the example of the specification, the set of
  its characters is the set that holds the key field, and column discovery does what is
  expected: the key field first, then every other field name in first-occurrence order,
  each name once.
\<close>

lemma extract_header_cols_one_char_key:
  "extract_header_cols rows [c] = first_seen [[c]] (concat (map dict_keys rows))
   \<and> distinct (extract_header_cols rows [c])
   \<and> set (extract_header_cols rows [c]) = insert [c] (\<Union>row\<in>set rows. set (dict_keys row))
   \<and> hd (extract_header_cols rows [c]) = [c]"
proof -
  have e: "extract_header_cols rows [c] = first_seen [[c]] (concat (map dict_keys rows))"
    using fold_rows_header_step[of rows "[[c]]"] by (simp add: extract_header_cols_def)
  have "take (length [[c]]) (first_seen [[c]] (concat (map dict_keys rows))) = [[c]]"
    by (rule first_seen_prefix)
  then have "hd (first_seen [[c]] (concat (map dict_keys rows))) = [c]"
    by (cases "first_seen [[c]] (concat (map dict_keys rows))") auto
  then show ?thesis
    by (simp add: e first_seen_distinct first_seen_set)
qed

lemma extract_header_cols_spec_example:
  "extract_header_cols [[(''a'', PInt 1), (''b'', PInt 2)], [(''a'', PInt 1), (''c'', PInt 3)]] ''a''
     = [''a'', ''b'', ''c'']"
  by (simp add: eval_defs)

text \<open>
  Claim C1, at two inputs the code can receive. When the first field of the first record is
  the key field \<open>instId\<close> itself, the column list holds the key field twice; with key
  field \<open>id\<close>, the field \<open>d\<close> of a record is left out of the column list and the key
  field is again listed twice. The set of names already listed starts as the set of the
  characters of the key field, not as the set that holds the key field.
\<close>

theorem header_cols_key_twice:
  "extract_header_cols
     [[(''instId'', PStr ''BTC/USDT.BNC''), (''symbol'', PStr ''BTCUSDT'')]] ''instId''
     = [''instId'', ''instId'', ''symbol'']
   \<and> extract_header_cols [[(''d'', PInt 1), (''id'', PInt 2)]] ''id'' = [''id'', ''id'']"
  by (simp add: eval_defs)

section \<open>The CSV Writer: results\<close>

lemma csv_lines_fst:
  assumes "\<forall>r\<in>set rows. map_of r kf \<noteq> None"
  shows "fst (csv_lines rows kf hdr lines st) =
    Inr (lines @ map (\<lambda>r. (the (map_of r kf), csv_cells hdr r))
                   (first_rows kf (fst ` set lines) rows))"
  using assms
proof (induction rows arbitrary: lines st)
  case Nil
  then show ?case by simp
next
  case (Cons r rows)
  then obtain k where k: "map_of r kf = Some k" by auto
  have rest: "\<forall>r\<in>set rows. map_of r kf \<noteq> None" using Cons.prems by simp
  show ?case
  proof (cases "k \<in> fst ` set lines")
    case True
    then have "map_of lines k \<noteq> None" by (simp add: map_of_eq_None_iff)
    with k True Cons.IH[OF rest] show ?thesis
      by (simp add: dict_item_def)
  next
    case False
    then have "map_of lines k = None" by (simp add: map_of_eq_None_iff)
    with k False Cons.IH[OF rest, of "lines @ [(k, csv_cells hdr r)]"] show ?thesis
      by (simp add: dict_item_def csv_cells_def)
  qed
qed

lemma first_rows_subset: "set (first_rows kf seen rows) \<subseteq> set rows"
  by (induction rows arbitrary: seen) (auto split: option.splits if_splits)

lemma first_rows_fresh:
  "r \<in> set (first_rows kf seen rows) \<Longrightarrow> \<exists>k. map_of r kf = Some k \<and> k \<notin> seen"
proof (induction rows arbitrary: seen)
  case Nil
  then show ?case by simp
next
  case (Cons r0 rows)
  show ?case
  proof (cases "map_of r0 kf")
    case None
    with Cons.prems show ?thesis by simp
  next
    case (Some k0)
    show ?thesis
    proof (cases "k0 \<in> seen")
      case True
      with Some Cons.prems Cons.IH[of seen] show ?thesis by simp
    next
      case False
      with Some Cons.prems consider "r = r0" | "r \<in> set (first_rows kf (insert k0 seen) rows)"
        by auto
      then show ?thesis
      proof cases
        case 1
        with Some False show ?thesis by simp
      next
        case 2
        from Cons.IH[OF this] show ?thesis by auto
      qed
    qed
  qed
qed

lemma first_rows_distinct:
  "distinct (map (\<lambda>r. the (map_of r kf)) (first_rows kf seen rows))"
proof (induction rows arbitrary: seen)
  case Nil
  then show ?case by simp
next
  case (Cons r rows)
  show ?case
  proof (cases "map_of r kf")
    case None
    then show ?thesis by simp
  next
    case (Some k)
    have "the (map_of r' kf) \<noteq> k" if "r' \<in> set (first_rows kf (insert k seen) rows)" for r'
      using first_rows_fresh[OF that] by auto
    with Some Cons.IH show ?thesis by auto
  qed
qed

lemma first_rows_keys:
  assumes "\<forall>r\<in>set rows. map_of r kf \<noteq> None"
  shows "(\<lambda>r. the (map_of r kf)) ` set (first_rows kf seen rows)
       = (\<lambda>r. the (map_of r kf)) ` set rows - seen"
  using assms
proof (induction rows arbitrary: seen)
  case Nil
  then show ?case by simp
next
  case (Cons r rows)
  then obtain k where k: "map_of r kf = Some k" by auto
  have rest: "\<forall>r\<in>set rows. map_of r kf \<noteq> None" using Cons.prems by simp
  show ?case
    using k Cons.IH[OF rest, of seen] Cons.IH[OF rest, of "insert k seen"]
    by (cases "k \<in> seen") auto
qed

lemma first_rows_find:
  assumes "r \<in> set (first_rows kf seen rows)"
  shows "find (\<lambda>r'. map_of r' kf = map_of r kf) rows = Some r"
  using assms
proof (induction rows arbitrary: seen)
  case Nil
  then show ?case by simp
next
  case (Cons r0 rows)
  from Cons.prems obtain k0 where k0: "map_of r0 kf = Some k0"
    by (cases "map_of r0 kf") auto
  show ?case
  proof (cases "k0 \<in> seen")
    case True
    with k0 Cons.prems have in_rest: "r \<in> set (first_rows kf seen rows)" by simp
    from first_rows_fresh[OF this] True k0 have "map_of r0 kf \<noteq> map_of r kf" by auto
    with Cons.IH[OF in_rest] show ?thesis by simp
  next
    case False
    with k0 Cons.prems consider "r = r0" | "r \<in> set (first_rows kf (insert k0 seen) rows)"
      by auto
    then show ?thesis
    proof cases
      case 1
      then show ?thesis by simp
    next
      case 2
      from first_rows_fresh[OF this] k0 have "map_of r0 kf \<noteq> map_of r kf" by auto
      with Cons.IH[OF 2] show ?thesis by simp
    qed
  qed
qed

lemma csv_lines_emitted_mono:
  "set (emitted st) \<subseteq> set (emitted (snd (csv_lines rows kf hdr lines st)))"
proof (induction rows arbitrary: lines st)
  case Nil
  then show ?case by simp
next
  case (Cons r rows)
  show ?case
  proof (cases "dict_item r kf")
    case (Inl e)
    then show ?thesis by simp
  next
    case (Inr k)
    have "set (emitted st) \<subseteq> set (emitted (emit d st))" for d
      by (auto simp: emit_def)
    with Inr Cons.IH show ?thesis
      by (auto simp: Let_def) blast
  qed
qed

lemma csv_lines_reports_seen:
  assumes "\<forall>r\<in>set rows. map_of r kf \<noteq> None"
    and "r \<in> set rows" and "map_of r kf = Some k" and "k \<in> fst ` set lines"
  shows "Printed (duplicate_msg k) \<in> set (emitted (snd (csv_lines rows kf hdr lines st)))"
  using assms
proof (induction rows arbitrary: lines st)
  case Nil
  then show ?case by simp
next
  case (Cons r0 rows)
  from Cons.prems(1) obtain k0 where k0: "map_of r0 kf = Some k0" by auto
  have rest: "\<forall>r\<in>set rows. map_of r kf \<noteq> None" using Cons.prems(1) by simp
  show ?case
  proof (cases "k0 \<in> fst ` set lines")
    case True
    then have seen0: "map_of lines k0 \<noteq> None" by (simp add: map_of_eq_None_iff)
    show ?thesis
    proof (cases "r = r0")
      case True
      with k0 Cons.prems(3) have "k0 = k" by simp
      have "Printed (duplicate_msg k) \<in> set (emitted (emit (Printed (duplicate_msg k)) st))"
        by (simp add: emit_def)
      with csv_lines_emitted_mono[of "emit (Printed (duplicate_msg k)) st" rows kf hdr lines]
      show ?thesis
        using k0 seen0 \<open>k0 = k\<close> by (auto simp: dict_item_def duplicate_msg_def)
    next
      case False
      with Cons.prems(2) have "r \<in> set rows" by simp
      from Cons.IH[OF rest this Cons.prems(3,4)] k0 seen0 show ?thesis
        by (simp add: dict_item_def)
    qed
  next
    case False
    then have new0: "map_of lines k0 = None" by (simp add: map_of_eq_None_iff)
    from False Cons.prems(3,4) k0 have "r \<noteq> r0" by force
    with Cons.prems(2) have in_rest: "r \<in> set rows" by simp
    have "k \<in> fst ` set (lines @ [(k0, csv_cells hdr r0)])"
      using Cons.prems(4) by auto
    from Cons.IH[OF rest in_rest Cons.prems(3) this] k0 new0 show ?thesis
      by (simp add: dict_item_def csv_cells_def)
  qed
qed

lemma csv_lines_reports_duplicate:
  assumes "\<forall>r\<in>set rows. map_of r kf \<noteq> None"
    and "1 < length (filter (\<lambda>r. map_of r kf = Some k) rows)"
  shows "Printed (duplicate_msg k) \<in> set (emitted (snd (csv_lines rows kf hdr lines st)))"
  using assms
proof (induction rows arbitrary: lines st)
  case Nil
  then show ?case by simp
next
  case (Cons r0 rows)
  from Cons.prems(1) obtain k0 where k0: "map_of r0 kf = Some k0" by auto
  have rest: "\<forall>r\<in>set rows. map_of r kf \<noteq> None" using Cons.prems(1) by simp
  show ?case
  proof (cases "k0 = k")
    case True
    with k0 Cons.prems(2) have "0 < length (filter (\<lambda>r. map_of r kf = Some k) rows)"
      by simp
    then obtain r where r: "r \<in> set rows" "map_of r kf = Some k"
      by (auto simp: filter_empty_conv)
    have again: "r \<in> set (r0 # rows)" using r by simp
    show ?thesis
    proof (cases "k \<in> fst ` set lines")
      case True
      from csv_lines_reports_seen[OF Cons.prems(1) again r(2) True] show ?thesis .
    next
      case False
      then have new0: "map_of lines k = None" by (simp add: map_of_eq_None_iff)
      have "k \<in> fst ` set (lines @ [(k, csv_cells hdr r0)])" by simp
      from csv_lines_reports_seen[OF rest r(1) r(2) this, of hdr st] k0 \<open>k0 = k\<close> new0
      show ?thesis by (simp add: dict_item_def csv_cells_def)
    qed
  next
    case False
    with k0 Cons.prems(2) have more: "1 < length (filter (\<lambda>r. map_of r kf = Some k) rows)"
      by simp
    from Cons.IH[OF rest more] k0 show ?thesis
      by (simp add: dict_item_def Let_def)
  qed
qed

lemma map_insort_key: "map f (insort_key f x xs) = insort (f x) (map f xs)"
  by (induction xs) auto

lemma map_sort_key: "map f (sort_key f xs) = sort (map f xs)"
  by (induction xs) (auto simp: map_insort_key)

lemma py_sorted_strings:
  "list_all is_str ks \<Longrightarrow> py_sorted ks = Inr (map PStr (sort (map the_str ks)))"
  by (simp add: py_sorted_def)

lemma is_str_conv: "is_str v \<longleftrightarrow> (\<exists>s. v = PStr s)"
  by (cases v) auto

lemma line_of_first_rows:
  assumes "distinct (map key frs)" and "r \<in> set frs"
  shows "line_of (map (\<lambda>r. (key r, cells r)) frs) (key r) = cells r"
proof -
  have "map_of (map (\<lambda>r. (key r, cells r)) frs) (key r) = Some (cells r)"
    using assms by (induction frs) (auto simp: image_iff)
  then show ?thesis by (simp add: line_of_def)
qed

lemma csv_cells_text:
  "map py_str (csv_cells hdr r) =
     map (\<lambda>col. case map_of r col of None \<Rightarrow> [] | Some v \<Rightarrow> py_str v) hdr"
  by (auto simp: csv_cells_def dict_get_def split: option.splits)


text \<open>
  Claim C5, as the code has it. For every record list in which every record has the key
  field with a string value, the writer succeeds; it writes the header line and then one
  line per record of a list \<open>rs\<close> whose key values \<open>ks\<close> are in ascending order
  (strings compare character by character, by code point), pairwise different, and exactly
  the key values of the input. Each record of \<open>rs\<close> is the first record of the input
  with its key value, a field missing from it is written as the empty string, and a key
  value carried by more than one record has its diagnostic printed.
\<close>

theorem write_csv_file_string_keys:
  assumes "\<forall>r\<in>set rows. \<exists>s. map_of r index_field = Some (PStr s)"
  shows "\<exists>rs ks.
      fst (write_csv_file fn rows index_field delim st) =
        Inr ([str_join delim (extract_header_cols rows index_field), nl] @
             concat (map (\<lambda>r. [str_join delim
                                   (map (\<lambda>col. case map_of r col of None \<Rightarrow> [] | Some v \<Rightarrow> py_str v)
                                      (extract_header_cols rows index_field)), nl]) rs))
    \<and> map (\<lambda>r. map_of r index_field) rs = map (\<lambda>k. Some (PStr k)) ks
    \<and> sorted ks \<and> distinct ks
    \<and> set ks = {k. \<exists>r\<in>set rows. map_of r index_field = Some (PStr k)}
    \<and> (\<forall>r\<in>set rs. find (\<lambda>r'. map_of r' index_field = map_of r index_field) rows = Some r)
    \<and> (\<forall>k. 1 < length (filter (\<lambda>r. map_of r index_field = Some (PStr k)) rows) \<longrightarrow>
          Printed (duplicate_msg (PStr k))
            \<in> set (emitted (snd (write_csv_file fn rows index_field delim st))))"
proof -
  define hdr where "hdr = extract_header_cols rows index_field"
  define key where "key = (\<lambda>r::pydict. the (map_of r index_field))"
  define keystr where "keystr = (\<lambda>r::pydict. the_str (the (map_of r index_field)))"
  define frs where "frs = first_rows index_field {} rows"
  define lines where "lines = map (\<lambda>r. (key r, csv_cells hdr r)) frs"
  define rs where "rs = sort_key keystr frs"
  define ks where "ks = map keystr rs"
  have present: "\<forall>r\<in>set rows. map_of r index_field \<noteq> None"
    using assms by auto
  have str_key: "map_of r index_field = Some (PStr (keystr r))" if "r \<in> set rows" for r
    using assms that by (auto simp: keystr_def)
  have key_str: "key r = PStr (keystr r)" if "r \<in> set rows" for r
    using str_key[OF that] by (simp add: key_def)
  have frs_rows: "set frs \<subseteq> set rows"
    unfolding frs_def by (rule first_rows_subset)
  have rs_set: "set rs = set frs"
    by (simp add: rs_def)
  have rs_rows: "set rs \<subseteq> set rows"
    using rs_set frs_rows by simp
  \<comment> \<open>the loop\<close>
  have "fst (csv_lines rows index_field hdr [] st) = Inr lines"
    using csv_lines_fst[OF present, of hdr "[]" st] by (simp add: lines_def frs_def key_def)
  then obtain st1 where loop: "csv_lines rows index_field hdr [] st = (Inr lines, st1)"
    by (cases "csv_lines rows index_field hdr [] st") auto
  \<comment> \<open>the keys and their order\<close>
  have keys: "map fst lines = map key frs"
    by (simp add: lines_def comp_def)
  have "list_all is_str (map key frs)"
    using frs_rows key_str by (auto simp: list_all_iff)
  from py_sorted_strings[OF this]
  have "py_sorted (map fst lines) = Inr (map PStr (sort (map the_str (map key frs))))"
    by (simp add: keys)
  also have "map the_str (map key frs) = map keystr frs"
    by (simp add: key_def keystr_def)
  also have "sort (map keystr frs) = ks"
    by (simp add: ks_def rs_def map_sort_key)
  finally have sorted_keys: "py_sorted (map fst lines) = Inr (map PStr ks)" .
  \<comment> \<open>the lines written\<close>
  have dist_key: "distinct (map key frs)"
    unfolding key_def frs_def by (rule first_rows_distinct)
  have line: "str_join delim (map py_str (line_of lines (PStr (keystr r)))) =
      str_join delim (map (\<lambda>col. case map_of r col of None \<Rightarrow> [] | Some v \<Rightarrow> py_str v) hdr)"
    if "r \<in> set rs" for r
  proof -
    from that rs_set have in_frs: "r \<in> set frs" by simp
    with frs_rows have "key r = PStr (keystr r)" by (auto intro: key_str)
    with line_of_first_rows[OF dist_key in_frs, of "csv_cells hdr"] show ?thesis
      by (simp add: lines_def csv_cells_text)
  qed
  have written: "concat (map (\<lambda>key. [str_join delim (map py_str (line_of lines key)), nl])
        (map PStr ks)) =
      concat (map (\<lambda>r. [str_join delim
          (map (\<lambda>col. case map_of r col of None \<Rightarrow> [] | Some v \<Rightarrow> py_str v) hdr), nl]) rs)"
    unfolding ks_def map_map comp_def
    by (rule arg_cong[where f = concat], rule map_cong) (simp_all add: line)
  have result: "write_csv_file fn rows index_field delim st =
      (Inr ([str_join delim hdr, nl] @
            concat (map (\<lambda>r. [str_join delim
               (map (\<lambda>col. case map_of r col of None \<Rightarrow> [] | Some v \<Rightarrow> py_str v) hdr), nl]) rs)),
       emit (LogInfo (''writing file '' @ sq @ fn @ sq)) st1)"
    using loop sorted_keys written
    by (simp add: write_csv_file_def Let_def hdr_def[symmetric])
  \<comment> \<open>the properties of the keys\<close>
  have c2: "map (\<lambda>r. map_of r index_field) rs = map (\<lambda>k. Some (PStr k)) ks"
    using rs_rows str_key by (auto simp: ks_def)
  have c3: "sorted ks"
    by (simp add: ks_def rs_def map_sort_key)
  have inj: "inj_on PStr UNIV" by (simp add: inj_on_def)
  have "map key frs = map PStr (map keystr frs)"
    using frs_rows key_str by auto
  with dist_key have "distinct (map PStr (map keystr frs))"
    by simp
  then have "distinct (map keystr frs)"
    by (rule distinct_map[THEN iffD1, THEN conjunct1])
  then have c4: "distinct ks"
    by (simp add: ks_def rs_def map_sort_key)
  have "key ` set frs = key ` set rows"
    using first_rows_keys[OF present, of "{}"] by (simp add: key_def frs_def)
  have c5: "set ks = {k. \<exists>r\<in>set rows. map_of r index_field = Some (PStr k)}"
  proof (intro set_eqI iffI)
    fix k assume "k \<in> set ks"
    then obtain r where "r \<in> set rs" "k = keystr r" by (auto simp: ks_def)
    with rs_rows str_key show "k \<in> {k. \<exists>r\<in>set rows. map_of r index_field = Some (PStr k)}"
      by auto
  next
    fix k assume "k \<in> {k. \<exists>r\<in>set rows. map_of r index_field = Some (PStr k)}"
    then obtain r where r: "r \<in> set rows" "map_of r index_field = Some (PStr k)" by auto
    then have "key r \<in> key ` set frs"
      using \<open>key ` set frs = key ` set rows\<close> by auto
    then obtain r' where r': "r' \<in> set frs" "key r' = key r" by auto
    with r have "keystr r' = k" by (simp add: key_def keystr_def)
    with r'(1) rs_set show "k \<in> set ks" by (auto simp: ks_def)
  qed
  have c6: "\<forall>r\<in>set rs. find (\<lambda>r'. map_of r' index_field = map_of r index_field) rows = Some r"
    using rs_set first_rows_find[of _ index_field "{}" rows] by (auto simp: frs_def)
  have c7: "Printed (duplicate_msg (PStr k))
        \<in> set (emitted (snd (write_csv_file fn rows index_field delim st)))"
    if "1 < length (filter (\<lambda>r. map_of r index_field = Some (PStr k)) rows)" for k
  proof -
    from csv_lines_reports_duplicate[OF present that, of hdr "[]" st] loop
    have "Printed (duplicate_msg (PStr k)) \<in> set (emitted st1)" by simp
    then show ?thesis by (simp add: result emit_def)
  qed
  show ?thesis
    apply (rule exI[of _ rs], rule exI[of _ ks])
    using c2 c3 c4 c5 c6 c7 by (simp add: result hdr_def)
qed

text \<open>
  The theorem at three records with the keys \<open>b\<close>, \<open>a\<close>, \<open>b\<close>: the line of \<open>a\<close>
  comes first, the line of \<open>b\<close> is that of the first record, and the duplicate is reported.
\<close>

theorem write_csv_file_string_keys_witness:
  "fst (write_csv_file ''tmp/out.csv''
      [[(''k'', PStr ''b''), (''x'', PInt 1)], [(''k'', PStr ''a'')],
       [(''k'', PStr ''b''), (''y'', PNone)]] ''k'' '','' initial_state)
     = Inr [''k,x,y'', nl, ''a,,'', nl, ''b,1,'', nl]
   \<and> 1 < length (filter (\<lambda>r. map_of r ''k'' = Some (PStr ''b''))
        [[(''k'', PStr ''b''), (''x'', PInt 1)], [(''k'', PStr ''a'')],
         [(''k'', PStr ''b''), (''y'', PNone)]])
   \<and> Printed (duplicate_msg (PStr ''b'')) \<in> set (emitted (snd (write_csv_file ''tmp/out.csv''
      [[(''k'', PStr ''b''), (''x'', PInt 1)], [(''k'', PStr ''a'')],
       [(''k'', PStr ''b''), (''y'', PNone)]] ''k'' '','' initial_state)))"
  using write_csv_file_string_keys[of
      "[[(''k'', PStr ''b''), (''x'', PInt 1)], [(''k'', PStr ''a'')],
        [(''k'', PStr ''b''), (''y'', PNone)]]" "''k''" "''tmp/out.csv''" "'',''" initial_state]
  by (simp add: eval_defs duplicate_msg_def nat_digits.simps)


text \<open>
  Claim C5 as stated fails when the key values are not all strings. With the key values
  \<open>"a"\<close>, \<open>"a"\<close> and \<open>1\<close> every record has the key field and \<open>"a"\<close> is carried
  twice, but sorting a string with an integer raises \<open>TypeError\<close> and no data line is
  written at all. With the integer key values 10 and 9 the lines come in numeric order,
  \<open>9\<close> before \<open>10\<close>, which is not the lexicographic order of what is written.
\<close>

theorem write_csv_file_mixed_keys_counterexample:
  "fst (write_csv_file ''tmp/out.csv''
      [[(''k'', PStr ''a'')], [(''k'', PStr ''a'')], [(''k'', PInt 1)]] ''k'' '','' initial_state)
     = Inl TypeError
   \<and> fst (write_csv_file ''tmp/out.csv''
      [[(''k'', PInt 10)], [(''k'', PInt 9)]] ''k'' '','' initial_state)
     = Inr [''k'', nl, ''9'', nl, ''10'', nl]
   \<and> \<not> sorted [''9'', ''10'']"
  by (simp add: eval_defs nat_digits.simps)

end
